theory Spec2Isabelle
  imports Complex_Main "HOL-Library.Multiset" "HOL-Library.Product_Lexorder"
begin

section \<open>Data model (types.ts)\<close>

text \<open>
  The embedding follows the TypeScript sources of the event-sourced bank account:
  the aggregate \<open>BankAccount\<close>, the \<open>EventStore\<close>, the \<open>Projector\<close>
  and the route handlers that tie them together.

  There are two embeddings. The first one has the whole system: the aggregate, the event
  store, the projector and the routes. Its amounts are exact whole numbers and its tables
  keep their key constraints only; it carries the claims about versions, snapshots,
  replays, idempotency and the order of events, which depend on neither. The second one
  (section \<open>Numbers and column types\<close>) has the aggregate, the event store and the
  projector with JavaScript numbers as IEEE-754 doubles and with the types of the columns;
  it carries the claims about the value of a balance and about what the database stores.

  Modelling conventions.
  \<^item> In the first embedding amounts and balances are exact numbers (\<open>int\<close>).
  \<^item> Event numbers, versions and timestamps (milliseconds of a \<open>Date\<close>) are \<open>nat\<close>.
  \<^item> \<open>eventType\<close> and \<open>eventData\<close> form one tagged union: the type is the
    constructor of the data.
  \<^item> The values of \<open>uuidv4()\<close> and \<open>new Date()\<close> are inputs of the operation that
    calls them.
  \<^item> A JavaScript \<open>Set\<close> of strings is a duplicate-free list in insertion order.
  \<^item> An operation that may throw returns the error (if any) together with the object
    as the throw leaves it.
  \<^item> In the first embedding a table is its rows under its key constraints (PRIMARY KEY,
    UNIQUE), and every value fits its column.
\<close>

datatype EventType = AccountCreated | MoneyDeposited | MoneyWithdrawn | AccountClosed

datatype EventData =
    AccountCreatedData string int string
  | MoneyDepositedData int "string option" string
  | MoneyWithdrawnData int "string option" string
  | AccountClosedData "string option"

record DomainEvent =
  eventId :: string
  aggregateId :: string
  aggregateType :: string
  eventData :: EventData
  eventNumber :: nat
  timestamp :: nat
  version :: nat

fun typeOfData :: "EventData \<Rightarrow> EventType" where
  "typeOfData (AccountCreatedData ownerName initialBalance currency) = AccountCreated"
| "typeOfData (MoneyDepositedData amount description transactionId) = MoneyDeposited"
| "typeOfData (MoneyWithdrawnData amount description transactionId) = MoneyWithdrawn"
| "typeOfData (AccountClosedData reason) = AccountClosed"

definition eventType :: "DomainEvent \<Rightarrow> EventType" where
  "eventType e = typeOfData (eventData e)"

datatype Status = OPEN | CLOSED

record BankAccountState =
  accountId :: string
  ownerName :: string
  balance :: int
  currency :: string
  status :: Status
  processedTransactionIds :: "string list"

text \<open>\<open>Set.has\<close>, \<open>Set.add\<close>, \<open>new Set(array)\<close> and \<open>Array.from(set)\<close>.\<close>

definition has :: "string list \<Rightarrow> string \<Rightarrow> bool" where
  "has s x = (x \<in> set s)"

definition add :: "string \<Rightarrow> string list \<Rightarrow> string list" where
  "add x s = (if has s x then s else s @ [x])"

definition new_Set :: "string list \<Rightarrow> string list" where
  "new_Set xs = fold add xs []"

definition Array_from :: "string list \<Rightarrow> string list" where
  "Array_from s = s"

datatype error =
    AccountClosedError
  | InvalidAmount
  | InsufficientFunds
  | AlreadyClosed
  | NonZeroBalance
  | ConcurrencyConflict nat string
  | UniqueViolation string

section \<open>The aggregate (domain/BankAccount.ts)\<close>

record BankAccount =
  state :: BankAccountState
  changes :: "DomainEvent list"
  aggVersion :: nat

text \<open>The constructor: an account that no event has touched is CLOSED with balance 0.\<close>

definition new_BankAccount :: BankAccount where
  "new_BankAccount =
     \<lparr> state = \<lparr> accountId = '''', ownerName = '''', balance = 0, currency = '''',
                 status = CLOSED, processedTransactionIds = [] \<rparr>,
       changes = [], aggVersion = 0 \<rparr>"

text \<open>\<open>BankAccount.apply\<close>: the effect of one event, then \<open>this.version = event.version\<close>.\<close>

fun applyData :: "string \<Rightarrow> EventData \<Rightarrow> BankAccountState \<Rightarrow> BankAccountState" where
  "applyData aid (AccountCreatedData owner initialBalance cur) s =
     s\<lparr> accountId := aid, ownerName := owner, balance := initialBalance,
        currency := cur, status := OPEN \<rparr>"
| "applyData aid (MoneyDepositedData amount description transactionId) s =
     s\<lparr> balance := balance s + amount,
        processedTransactionIds := add transactionId (processedTransactionIds s) \<rparr>"
| "applyData aid (MoneyWithdrawnData amount description transactionId) s =
     s\<lparr> balance := balance s - amount,
        processedTransactionIds := add transactionId (processedTransactionIds s) \<rparr>"
| "applyData aid (AccountClosedData reason) s = s\<lparr> status := CLOSED \<rparr>"

definition apply_event :: "DomainEvent \<Rightarrow> BankAccount \<Rightarrow> BankAccount" where
  "apply_event event this =
     this\<lparr> state := applyData (aggregateId event) (eventData event) (state this),
           aggVersion := version event \<rparr>"

definition push :: "DomainEvent \<Rightarrow> BankAccount \<Rightarrow> BankAccount" where
  "push event this = this\<lparr> changes := changes this @ [event] \<rparr>"

definition newEvent :: "string \<Rightarrow> string \<Rightarrow> EventData \<Rightarrow> nat \<Rightarrow> nat \<Rightarrow> DomainEvent" where
  "newEvent uuid aid d n now =
     \<lparr> eventId = uuid, aggregateId = aid, aggregateType = ''BankAccount'',
       eventData = d, eventNumber = n, timestamp = now, version = n \<rparr>"

definition create :: "string \<Rightarrow> string \<Rightarrow> int \<Rightarrow> string \<Rightarrow> string \<Rightarrow> nat \<Rightarrow> BankAccount" where
  "create aid owner initialBalance cur uuid now =
     (let event = newEvent uuid aid (AccountCreatedData owner initialBalance cur) 1 now
      in push event (apply_event event new_BankAccount))"

definition deposit ::
  "int \<Rightarrow> string option \<Rightarrow> string \<Rightarrow> string \<Rightarrow> nat \<Rightarrow> BankAccount \<Rightarrow> error option \<times> BankAccount" where
  "deposit amount description transactionId uuid now this =
     (if status (state this) = CLOSED then (Some AccountClosedError, this)
      else if amount \<le> 0 then (Some InvalidAmount, this)
      else if has (processedTransactionIds (state this)) transactionId then (None, this)
      else
        let newVersion = aggVersion this + 1;
            event = newEvent uuid (accountId (state this))
                      (MoneyDepositedData amount description transactionId) newVersion now
        in (None, push event (apply_event event this)))"

definition withdraw ::
  "int \<Rightarrow> string option \<Rightarrow> string \<Rightarrow> string \<Rightarrow> nat \<Rightarrow> BankAccount \<Rightarrow> error option \<times> BankAccount" where
  "withdraw amount description transactionId uuid now this =
     (if status (state this) = CLOSED then (Some AccountClosedError, this)
      else if amount \<le> 0 then (Some InvalidAmount, this)
      else if balance (state this) < amount then (Some InsufficientFunds, this)
      else if has (processedTransactionIds (state this)) transactionId then (None, this)
      else
        let newVersion = aggVersion this + 1;
            event = newEvent uuid (accountId (state this))
                      (MoneyWithdrawnData amount description transactionId) newVersion now
        in (None, push event (apply_event event this)))"

definition close :: "string option \<Rightarrow> string \<Rightarrow> nat \<Rightarrow> BankAccount \<Rightarrow> error option \<times> BankAccount" where
  "close reason uuid now this =
     (if status (state this) = CLOSED then (Some AlreadyClosed, this)
      else if balance (state this) \<noteq> 0 then (Some NonZeroBalance, this)
      else
        let newVersion = aggVersion this + 1;
            event = newEvent uuid (accountId (state this)) (AccountClosedData reason) newVersion now
        in (None, push event (apply_event event this)))"

definition getUncommittedChanges :: "BankAccount \<Rightarrow> DomainEvent list" where
  "getUncommittedChanges this = changes this"

definition markChangesAsCommitted :: "BankAccount \<Rightarrow> BankAccount" where
  "markChangesAsCommitted this = this\<lparr> changes := [] \<rparr>"

definition getVersion :: "BankAccount \<Rightarrow> nat" where
  "getVersion this = aggVersion this"

text \<open>
  \<open>BankAccount.hydrate\<close>. A snapshot is the pair of the stored JSON document and
  \<open>lastEventNumber\<close>; the document holds the state with the processed transaction
  identifiers as an array. Without a snapshot the replay starts from the constructor's
  account.
\<close>

definition replay :: "DomainEvent list \<Rightarrow> BankAccount \<Rightarrow> BankAccount" where
  "replay events account = fold apply_event events account"

definition hydrate :: "DomainEvent list \<Rightarrow> (BankAccountState \<times> nat) option \<Rightarrow> BankAccount" where
  "hydrate events snapshot =
     (case snapshot of
        None \<Rightarrow> replay events new_BankAccount
      | Some (data, lastEventNumber) \<Rightarrow>
          replay events
            (new_BankAccount\<lparr>
               state := data\<lparr> processedTransactionIds := new_Set (processedTransactionIds data) \<rparr>,
               aggVersion := lastEventNumber \<rparr>))"

text \<open>
  The document the routes hand to \<open>saveSnapshot\<close>:
  \<open>{...account.state, processedTransactionIds: Array.from(...)}\<close>.
\<close>

definition snapshotData :: "BankAccount \<Rightarrow> BankAccountState" where
  "snapshotData account =
     (state account)\<lparr> processedTransactionIds := Array_from (processedTransactionIds (state account)) \<rparr>"

text \<open>
  A command to an aggregate that exists, with the identifier and the time its event
  would get.
\<close>

datatype Command =
    Deposit int "string option" string string nat
  | Withdraw int "string option" string string nat
  | Close "string option" string nat

fun handle :: "Command \<Rightarrow> BankAccount \<Rightarrow> error option \<times> BankAccount" where
  "handle (Deposit amount description transactionId uuid now) a =
     deposit amount description transactionId uuid now a"
| "handle (Withdraw amount description transactionId uuid now) a =
     withdraw amount description transactionId uuid now a"
| "handle (Close reason uuid now) a = close reason uuid now a"

text \<open>
  A run of commands that are all accepted: \<open>None\<close> as soon as one of them throws.
\<close>

fun accepted :: "Command list \<Rightarrow> BankAccount \<Rightarrow> BankAccount option" where
  "accepted [] a = Some a"
| "accepted (c # cs) a =
     (case handle c a of
        (Some err, a') \<Rightarrow> None
      | (None, a') \<Rightarrow> accepted cs a')"

section \<open>The event store (lib/EventStore.ts, seeds/init.sql)\<close>

text \<open>
  The table \<open>events\<close> is the list of its rows in the order of insertion. It has two key
  constraints: \<open>event_id\<close> is the primary key and \<open>(aggregate_id, event_number)\<close> is
  unique. \<open>save\<close> runs in one transaction: it looks for a row with the event's aggregate
  and number and throws if there is one; then it inserts, which the primary key refuses
  for an \<open>event_id\<close> that is already stored. Every throw rolls the transaction back.
\<close>

definition save :: "DomainEvent \<Rightarrow> DomainEvent list \<Rightarrow> error option \<times> DomainEvent list" where
  "save event rows =
     (let checkResult =
            filter (\<lambda>row. aggregateId row = aggregateId event \<and> eventNumber row = eventNumber event) rows
      in if length checkResult > 0
         then (Some (ConcurrencyConflict (eventNumber event) (aggregateId event)), rows)
         else if filter (\<lambda>row. eventId row = eventId event) rows \<noteq> []
         then (Some (UniqueViolation (eventId event)), rows)
         else (None, rows @ [event]))"

definition getEvents :: "string \<Rightarrow> nat \<Rightarrow> DomainEvent list \<Rightarrow> DomainEvent list" where
  "getEvents aid fromVersion rows =
     sort_key version (filter (\<lambda>row. aggregateId row = aid \<and> version row > fromVersion) rows)"

text \<open>The table \<open>snapshots\<close>: one row for an aggregate, replaced by \<open>saveSnapshot\<close>.\<close>

type_synonym Snapshots = "string \<rightharpoonup> BankAccountState \<times> nat"

definition saveSnapshot :: "string \<Rightarrow> BankAccountState \<Rightarrow> nat \<Rightarrow> Snapshots \<Rightarrow> Snapshots" where
  "saveSnapshot aid data lastEventNumber snaps = snaps(aid \<mapsto> (data, lastEventNumber))"

definition getSnapshot :: "string \<Rightarrow> Snapshots \<Rightarrow> (BankAccountState \<times> nat) option" where
  "getSnapshot aid snaps = snaps aid"

section \<open>The projector (lib/Projector.ts)\<close>

text \<open>
  The read models: \<open>account_summaries\<close> with primary key \<open>account_id\<close> and
  \<open>transaction_history\<close> with primary key \<open>transaction_id\<close>, each a map from its key to
  the other columns of the row.
\<close>

record SummaryRow =
  owner_name :: string
  balance_col :: int
  currency_col :: string
  status_col :: Status
  version_col :: nat

record TransactionRow =
  account_id :: string
  type_col :: string
  amount_col :: int
  description_col :: string
  timestamp_col :: nat

record ReadModels =
  account_summaries :: "string \<rightharpoonup> SummaryRow"
  transaction_history :: "string \<rightharpoonup> TransactionRow"

definition emptyReadModels :: ReadModels where
  "emptyReadModels = \<lparr> account_summaries = Map.empty, transaction_history = Map.empty \<rparr>"

text \<open>\<open>data.description || 'Deposit'\<close>: a missing or empty description takes the default.\<close>

definition orDefault :: "string option \<Rightarrow> string \<Rightarrow> string" where
  "orDefault description dflt =
     (case description of None \<Rightarrow> dflt | Some d \<Rightarrow> if d = [] then dflt else d)"

text \<open>\<open>INSERT ... ON CONFLICT DO NOTHING\<close> and \<open>UPDATE ... WHERE key = ...\<close> on a table.\<close>

definition insertOnConflictDoNothing :: "'k \<Rightarrow> 'v \<Rightarrow> ('k \<rightharpoonup> 'v) \<Rightarrow> ('k \<rightharpoonup> 'v)" where
  "insertOnConflictDoNothing k v table = (case table k of None \<Rightarrow> table(k \<mapsto> v) | Some old \<Rightarrow> table)"

definition updateWhere :: "'k \<Rightarrow> ('v \<Rightarrow> 'v) \<Rightarrow> ('k \<rightharpoonup> 'v) \<Rightarrow> ('k \<rightharpoonup> 'v)" where
  "updateWhere k f table = (case table k of None \<Rightarrow> table | Some old \<Rightarrow> table(k \<mapsto> f old))"

definition projectAccountCreated :: "DomainEvent \<Rightarrow> string \<Rightarrow> int \<Rightarrow> string \<Rightarrow> ReadModels \<Rightarrow> ReadModels" where
  "projectAccountCreated event owner initialBalance cur db =
     db\<lparr> account_summaries :=
           insertOnConflictDoNothing (aggregateId event)
             \<lparr> owner_name = owner, balance_col = initialBalance, currency_col = cur,
               status_col = OPEN, version_col = version event \<rparr>
             (account_summaries db) \<rparr>"

definition projectMoneyDeposited ::
  "DomainEvent \<Rightarrow> int \<Rightarrow> string option \<Rightarrow> string \<Rightarrow> ReadModels \<Rightarrow> ReadModels" where
  "projectMoneyDeposited event amount description transactionId db =
     db\<lparr> account_summaries :=
           updateWhere (aggregateId event)
             (\<lambda>row. row\<lparr> balance_col := balance_col row + amount, version_col := version event \<rparr>)
             (account_summaries db),
         transaction_history :=
           insertOnConflictDoNothing transactionId
             \<lparr> account_id = aggregateId event, type_col = ''DEPOSIT'', amount_col = amount,
               description_col = orDefault description ''Deposit'',
               timestamp_col = timestamp event \<rparr>
             (transaction_history db) \<rparr>"

definition projectMoneyWithdrawn ::
  "DomainEvent \<Rightarrow> int \<Rightarrow> string option \<Rightarrow> string \<Rightarrow> ReadModels \<Rightarrow> ReadModels" where
  "projectMoneyWithdrawn event amount description transactionId db =
     db\<lparr> account_summaries :=
           updateWhere (aggregateId event)
             (\<lambda>row. row\<lparr> balance_col := balance_col row - amount, version_col := version event \<rparr>)
             (account_summaries db),
         transaction_history :=
           insertOnConflictDoNothing transactionId
             \<lparr> account_id = aggregateId event, type_col = ''WITHDRAWAL'', amount_col = amount,
               description_col = orDefault description ''Withdrawal'',
               timestamp_col = timestamp event \<rparr>
             (transaction_history db) \<rparr>"

definition projectAccountClosed :: "DomainEvent \<Rightarrow> ReadModels \<Rightarrow> ReadModels" where
  "projectAccountClosed event db =
     db\<lparr> account_summaries :=
           updateWhere (aggregateId event)
             (\<lambda>row. row\<lparr> status_col := CLOSED, version_col := version event \<rparr>)
             (account_summaries db) \<rparr>"

text \<open>
  \<open>Projector.project\<close>: one transaction. An event that is not an AccountCreated and
  whose version is at most the summary's is left alone (ROLLBACK of a transaction that
  wrote nothing); an AccountCreated is projected only when the account has no summary.
\<close>

definition project :: "DomainEvent \<Rightarrow> ReadModels \<Rightarrow> ReadModels" where
  "project event db =
     (let summaryRes = account_summaries db (aggregateId event);
          currentVersion = (case summaryRes of None \<Rightarrow> 0 | Some row \<Rightarrow> version_col row)
      in if version event \<le> currentVersion \<and> eventType event \<noteq> AccountCreated then db
         else
           (case eventData event of
              AccountCreatedData owner initialBalance cur \<Rightarrow>
                if summaryRes = None then projectAccountCreated event owner initialBalance cur db
                else db
            | MoneyDepositedData amount description transactionId \<Rightarrow>
                projectMoneyDeposited event amount description transactionId db
            | MoneyWithdrawnData amount description transactionId \<Rightarrow>
                projectMoneyWithdrawn event amount description transactionId db
            | AccountClosedData reason \<Rightarrow> projectAccountClosed event db))"





section \<open>The routes (routes.ts)\<close>

record System =
  events :: "DomainEvent list"
  snapshots :: Snapshots
  readModels :: ReadModels

definition emptySystem :: System where
  "emptySystem = \<lparr> events = [], snapshots = Map.empty, readModels = emptyReadModels \<rparr>"

definition loadBankAccount :: "string \<Rightarrow> System \<Rightarrow> BankAccount" where
  "loadBankAccount aid sys =
     (let snapshot = getSnapshot aid (snapshots sys);
          fromVersion = (case snapshot of None \<Rightarrow> 0 | Some (data, lastEventNumber) \<Rightarrow> lastEventNumber)
      in hydrate (getEvents aid fromVersion (events sys)) snapshot)"

text \<open>
  The loop over \<open>account.getUncommittedChanges()\<close>: save, project and, in the routes of
  an existing account, a snapshot of the account after every event whose number is a
  multiple of 50. A throw of \<open>save\<close> leaves the loop; \<open>project\<close> catches its own errors.
\<close>

fun saveAndProject :: "DomainEvent list \<Rightarrow> System \<Rightarrow> error option \<times> System" where
  "saveAndProject [] sys = (None, sys)"
| "saveAndProject (event # rest) sys =
     (case save event (events sys) of
        (Some err, rows) \<Rightarrow> (Some err, sys\<lparr> events := rows \<rparr>)
      | (None, rows) \<Rightarrow>
          saveAndProject rest
            (sys\<lparr> events := rows, readModels := project event (readModels sys) \<rparr>))"

fun saveProjectSnapshot :: "string \<Rightarrow> BankAccount \<Rightarrow> DomainEvent list \<Rightarrow> System \<Rightarrow> error option \<times> System" where
  "saveProjectSnapshot aid account [] sys = (None, sys)"
| "saveProjectSnapshot aid account (event # rest) sys =
     (case save event (events sys) of
        (Some err, rows) \<Rightarrow> (Some err, sys\<lparr> events := rows \<rparr>)
      | (None, rows) \<Rightarrow>
          saveProjectSnapshot aid account rest
            (sys\<lparr> events := rows,
                  readModels := project event (readModels sys),
                  snapshots :=
                    (if eventNumber event mod 50 = 0
                     then saveSnapshot aid (snapshotData account) (eventNumber event) (snapshots sys)
                     else snapshots sys) \<rparr>))"

datatype Body =
    Message string
  | ErrorMessage string
  | ErrorThrown error
  | Summary string string int string Status
  | BalanceAt string int nat

datatype Response = Response nat Body

definition postAccounts ::
  "string \<Rightarrow> string \<Rightarrow> int \<Rightarrow> string \<Rightarrow> string \<Rightarrow> nat \<Rightarrow> System \<Rightarrow> Response \<times> System" where
  "postAccounts aid owner initialBalance cur uuid now sys =
     (if aid = [] \<or> owner = [] \<or> initialBalance < 0 \<or> cur = []
      then (Response 400 (ErrorMessage ''Invalid input''), sys)
      else
        let existing = loadBankAccount aid sys
        in if getVersion existing > 0
           then (Response 409 (ErrorMessage ''Account already exists''), sys)
           else
             let account = create aid owner initialBalance cur uuid now
             in (case saveAndProject (getUncommittedChanges account) sys of
                   (Some err, sys') \<Rightarrow> (Response 500 (ErrorMessage ''Internal server error''), sys')
                 | (None, sys') \<Rightarrow> (Response 202 (Message ''Account created''), sys')))"

definition postDeposit ::
  "string \<Rightarrow> int \<Rightarrow> string option \<Rightarrow> string \<Rightarrow> string \<Rightarrow> nat \<Rightarrow> System \<Rightarrow> Response \<times> System" where
  "postDeposit aid amount description transactionId uuid now sys =
     (if amount \<le> 0 \<or> transactionId = []
      then (Response 400 (ErrorMessage ''Invalid input''), sys)
      else
        let account = loadBankAccount aid sys
        in if getVersion account = 0
           then (Response 404 (ErrorMessage ''Account not found''), sys)
           else
             (case deposit amount description transactionId uuid now account of
                (Some e, account') \<Rightarrow> (Response 409 (ErrorThrown e), sys)
              | (None, account') \<Rightarrow>
                  (case saveProjectSnapshot aid account' (getUncommittedChanges account') sys of
                     (Some err, sys') \<Rightarrow> (Response 500 (ErrorMessage ''Internal server error''), sys')
                   | (None, sys') \<Rightarrow> (Response 202 (Message ''Deposit accepted''), sys'))))"

definition postWithdraw ::
  "string \<Rightarrow> int \<Rightarrow> string option \<Rightarrow> string \<Rightarrow> string \<Rightarrow> nat \<Rightarrow> System \<Rightarrow> Response \<times> System" where
  "postWithdraw aid amount description transactionId uuid now sys =
     (if amount \<le> 0 \<or> transactionId = []
      then (Response 400 (ErrorMessage ''Invalid input''), sys)
      else
        let account = loadBankAccount aid sys
        in if getVersion account = 0
           then (Response 404 (ErrorMessage ''Account not found''), sys)
           else
             (case withdraw amount description transactionId uuid now account of
                (Some e, account') \<Rightarrow> (Response 409 (ErrorThrown e), sys)
              | (None, account') \<Rightarrow>
                  (case saveProjectSnapshot aid account' (getUncommittedChanges account') sys of
                     (Some err, sys') \<Rightarrow> (Response 500 (ErrorMessage ''Internal server error''), sys')
                   | (None, sys') \<Rightarrow> (Response 202 (Message ''Withdrawal accepted''), sys'))))"

definition postClose :: "string \<Rightarrow> string option \<Rightarrow> string \<Rightarrow> nat \<Rightarrow> System \<Rightarrow> Response \<times> System" where
  "postClose aid reason uuid now sys =
     (let account = loadBankAccount aid sys
      in if getVersion account = 0
         then (Response 404 (ErrorMessage ''Account not found''), sys)
         else
           (case close reason uuid now account of
              (Some e, account') \<Rightarrow> (Response 409 (ErrorThrown e), sys)
            | (None, account') \<Rightarrow>
                (case saveProjectSnapshot aid account' (getUncommittedChanges account') sys of
                   (Some err, sys') \<Rightarrow> (Response 500 (ErrorMessage ''Internal server error''), sys')
                 | (None, sys') \<Rightarrow> (Response 202 (Message ''Account closed''), sys'))))"

text \<open>\<open>GET /accounts/:id\<close>: the summary row of the account.\<close>

definition getAccount :: "string \<Rightarrow> System \<Rightarrow> Response" where
  "getAccount aid sys =
     (case account_summaries (readModels sys) aid of
        None \<Rightarrow> Response 404 (ErrorMessage ''Account not found'')
      | Some row \<Rightarrow>
          Response 200 (Summary aid (owner_name row) (balance_col row) (currency_col row) (status_col row)))"

text \<open>
  \<open>GET /accounts/:id/balance-at/:timestamp\<close>. The parsed timestamp is \<open>None\<close> when
  \<open>new Date(timestamp)\<close> is not a date.
\<close>

definition getBalanceAt :: "string \<Rightarrow> nat option \<Rightarrow> System \<Rightarrow> Response" where
  "getBalanceAt aid targetDate sys =
     (case targetDate of
        None \<Rightarrow> Response 400 (ErrorMessage ''Invalid timestamp format'')
      | Some target \<Rightarrow>
          let allEvents = getEvents aid 0 (events sys);
              relevantEvents = filter (\<lambda>e. timestamp e \<le> target) allEvents
          in if length relevantEvents = 0
             then Response 404 (ErrorMessage ''No history found for this account at given time'')
             else
               let account = hydrate relevantEvents None
               in Response 200 (BalanceAt aid (balance (state account)) target))"


text \<open>A request to the command side, with the identifier and the time its event gets.\<close>

datatype Request =
    CreateAccount string string int string string nat
  | DepositMoney string int "string option" string string nat
  | WithdrawMoney string int "string option" string string nat
  | CloseAccount string "string option" string nat

fun serve :: "Request \<Rightarrow> System \<Rightarrow> Response \<times> System" where
  "serve (CreateAccount aid owner initialBalance cur uuid now) sys =
     postAccounts aid owner initialBalance cur uuid now sys"
| "serve (DepositMoney aid amount description transactionId uuid now) sys =
     postDeposit aid amount description transactionId uuid now sys"
| "serve (WithdrawMoney aid amount description transactionId uuid now) sys =
     postWithdraw aid amount description transactionId uuid now sys"
| "serve (CloseAccount aid reason uuid now) sys = postClose aid reason uuid now sys"

text \<open>The system after a list of requests, whatever their responses.\<close>

fun serveAll :: "Request list \<Rightarrow> System \<Rightarrow> System" where
  "serveAll [] sys = sys"
| "serveAll (r # rs) sys = serveAll rs (snd (serve r sys))"

text \<open>The system after a list of requests that were all answered 202.\<close>

fun is202 :: "Response \<Rightarrow> bool" where
  "is202 (Response code body) = (code = 202)"

fun serveAccepted :: "Request list \<Rightarrow> System \<Rightarrow> System option" where
  "serveAccepted [] sys = Some sys"
| "serveAccepted (r # rs) sys =
     (case serve r sys of (resp, sys') \<Rightarrow> if is202 resp then serveAccepted rs sys' else None)"

section \<open>Histories and example data\<close>

text \<open>
  A list of events continues version \<open>v\<close> without a gap when its versions are
  \<open>v + 1, v + 2, ...\<close> in this order.
\<close>

definition gapless :: "nat \<Rightarrow> DomainEvent list \<Rightarrow> bool" where
  "gapless v es = (map version es = [Suc v ..< Suc v + length es])"

text \<open>Accounts that commands produce, used as concrete inputs below.\<close>

definition openAccount :: BankAccount where
  "openAccount = snd (deposit 10 None ''t1'' ''u2'' 20 (create ''acc'' ''Ann'' 0 ''EUR'' ''u1'' 10))"

definition closedAccount :: BankAccount where
  "closedAccount =
     snd (close (Some ''done'') ''u4'' 40
       (snd (withdraw 10 None ''t2'' ''u3'' 30
         (snd (deposit 10 None ''t1'' ''u2'' 20
           (create ''acc'' ''Ann'' 0 ''EUR'' ''u1'' 10))))))"

definition strayEvent :: DomainEvent where
  "strayEvent = newEvent ''u5'' ''acc'' (MoneyDepositedData 10 None ''t1'') 5 50"

text \<open>What the log holds for an event: a row with its aggregate and number, a row with
  its identifier.\<close>

definition pairStored :: "DomainEvent \<Rightarrow> DomainEvent list \<Rightarrow> bool" where
  "pairStored event rows =
     (\<exists>row \<in> set rows. aggregateId row = aggregateId event \<and> eventNumber row = eventNumber event)"

definition idStored :: "DomainEvent \<Rightarrow> DomainEvent list \<Rightarrow> bool" where
  "idStored event rows = (\<exists>row \<in> set rows. eventId row = eventId event)"

text \<open>
  The example of the specification: account A created with balance 100 at time 1000, a
  deposit of 50 at 2000 and a withdrawal of 30 at 3000, served by the routes.
\<close>

definition exampleRequests :: "Request list" where
  "exampleRequests =
     [CreateAccount ''A'' ''Ann'' 100 ''EUR'' ''u1'' 1000,
      DepositMoney ''A'' 50 None ''t1'' ''u2'' 2000,
      WithdrawMoney ''A'' 30 (Some ''rent'') ''t2'' ''u3'' 3000]"

definition exampleSystem :: System where
  "exampleSystem = serveAll exampleRequests emptySystem"

definition exampleEvents :: "DomainEvent list" where
  "exampleEvents =
     [newEvent ''u1'' ''A'' (AccountCreatedData ''Ann'' 100 ''EUR'') 1 1000,
      newEvent ''u2'' ''A'' (MoneyDepositedData 50 None ''t1'') 2 2000,
      newEvent ''u3'' ''A'' (MoneyWithdrawnData 30 (Some ''rent'') ''t2'') 3 3000]"







definition clockBackEvents :: "DomainEvent list" where
  "clockBackEvents =
     [newEvent ''u1'' ''A'' (AccountCreatedData ''Ann'' 100 ''EUR'') 1 2000,
      newEvent ''u2'' ''A'' (MoneyDepositedData 50 None ''t1'') 2 1000]"


text \<open>
  The consistency that the routes keep, account by account. The history of an account is
  the list of its rows of the log in the order of appending. An account is consistent when
  its history is numbered 1, 2, ... without a gap; its snapshot, if it has one, is the
  snapshot of a prefix of the history; the state replayed from a non-empty history
  carries the account's identifier; and its summary row mirrors the state replayed from
  the history (no row for an empty history).
\<close>

definition history :: "string \<Rightarrow> DomainEvent list \<Rightarrow> DomainEvent list" where
  "history aid rows = filter (\<lambda>e. aggregateId e = aid) rows"

definition summaryOf :: "BankAccount \<Rightarrow> SummaryRow" where
  "summaryOf a =
     \<lparr> owner_name = ownerName (state a), balance_col = balance (state a),
       currency_col = currency (state a), status_col = status (state a),
       version_col = aggVersion a \<rparr>"

definition accountInv :: "string \<Rightarrow> System \<Rightarrow> bool" where
  "accountInv aid sys =
     (let h = history aid (events sys); a = hydrate h None
      in gapless 0 h
         \<and> (case snapshots sys aid of
               None \<Rightarrow> True
             | Some (d, k) \<Rightarrow> k \<le> length h \<and> d = snapshotData (hydrate (take k h) None))
         \<and> (h \<noteq> [] \<longrightarrow> accountId (state a) = aid)
         \<and> account_summaries (readModels sys) aid = (if h = [] then None else Some (summaryOf a)))"

definition systemInv :: "System \<Rightarrow> bool" where
  "systemInv sys = (\<forall>aid. accountInv aid sys)"

text \<open>
  The answer that the point-in-time query owes for a list of events: not found for the
  empty list, else the balance of replaying the list through \<open>BankAccount.apply\<close>.
\<close>

definition replayedBalanceAnswer :: "string \<Rightarrow> nat \<Rightarrow> DomainEvent list \<Rightarrow> Response" where
  "replayedBalanceAnswer aid target es =
     (if es = [] then Response 404 (ErrorMessage ''No history found for this account at given time'')
      else Response 200 (BalanceAt aid (balance (state (fold apply_event es new_BankAccount))) target))"

text \<open>What the commands keep of a state: the balance is not negative, and a closed
  account has balance zero.\<close>

definition stateInv :: "BankAccountState \<Rightarrow> bool" where
  "stateInv s = (0 \<le> balance s \<and> (status s = CLOSED \<longrightarrow> balance s = 0))"

section \<open>Numbers and column types\<close>

text \<open>
  The claims about the value of a balance and about what the database stores are settled
  on a second embedding of the aggregate, the event store and the projector. It follows
  the first one line by line and adds what the first one leaves out: a JavaScript number
  is an IEEE-754 double, and a value is stored only if the type of its column takes it.
  The names of the second embedding carry a prime.
\<close>

subsection \<open>JavaScript numbers\<close>

text \<open>
  A number is a finite double, given by the rational that it denotes, or one of
  \<open>Infinity\<close>, \<open>-Infinity\<close> and \<open>NaN\<close>. (The two zeros are one value: no operation of
  the program tells them apart.) The finite doubles are the multiples \<open>m * 2^e\<close> with
  \<open>|m| < 2^53\<close> and \<open>-1074 \<le> e \<le> 971\<close>. \<open>spacing a\<close> is the distance \<open>2^e\<close> of the
  doubles around a magnitude \<open>a\<close>, found by halving or doubling from 1, and
  \<open>roundToDouble\<close> is the rounding of every arithmetic operation: to the nearest
  multiple of the spacing, a tie to the even multiple, and to an infinity from
  \<open>2^1024 - 2^970\<close> on.
\<close>

datatype number = Finite rat | PosInf | NegInf | NaN

definition roundHalfEven :: "rat \<Rightarrow> int" where
  "roundHalfEven x =
     (let f = \<lfloor>x\<rfloor>; r = x - of_int f
      in if r < 1 / 2 then f else if 1 / 2 < r then f + 1 else if even f then f else f + 1)"

fun spacingBelow :: "nat \<Rightarrow> rat \<Rightarrow> rat \<Rightarrow> rat" where
  "spacingBelow 0 a s = s"
| "spacingBelow (Suc n) a s = (if a < 2 ^ 52 * s then spacingBelow n a (s / 2) else s)"

fun spacingAbove :: "nat \<Rightarrow> rat \<Rightarrow> rat \<Rightarrow> rat" where
  "spacingAbove 0 a s = s"
| "spacingAbove (Suc n) a s = (if 2 ^ 53 * s \<le> a then spacingAbove n a (2 * s) else s)"

definition spacing :: "rat \<Rightarrow> rat" where
  "spacing a = (if a < 2 ^ 53 then spacingBelow 1074 a 1 else spacingAbove 971 a 1)"

definition roundToDouble :: "rat \<Rightarrow> number" where
  "roundToDouble q =
     (if 2 ^ 1024 - 2 ^ 970 \<le> \<bar>q\<bar> then (if 0 < q then PosInf else NegInf)
      else let s = spacing \<bar>q\<bar> in Finite (of_int (roundHalfEven (q / s)) * s))"

text \<open>A rational is a double when rounding leaves it alone; a number is well formed when
  its finite value is a double.\<close>

definition isDouble :: "rat \<Rightarrow> bool" where
  "isDouble q = (roundToDouble q = Finite q)"

fun isNumber :: "number \<Rightarrow> bool" where
  "isNumber (Finite q) = isDouble q"
| "isNumber x = True"

fun isFinite :: "number \<Rightarrow> bool" where
  "isFinite (Finite q) = True"
| "isFinite x = False"

text \<open>
  The operators \<open>+\<close>, \<open>-\<close>, \<open><\<close> and \<open><=\<close> of JavaScript on numbers. A comparison with
  \<open>NaN\<close> is false. \<open>x !== 0\<close> is \<open>x \<noteq> 0\<close>, which holds of \<open>NaN\<close>.
\<close>

instantiation number :: "{zero, plus, minus, ord}"
begin

definition zero_number :: number where
  "zero_number = Finite 0"

fun plus_number :: "number \<Rightarrow> number \<Rightarrow> number" where
  "plus_number (Finite a) (Finite b) = roundToDouble (a + b)"
| "plus_number NaN y = NaN"
| "plus_number x NaN = NaN"
| "plus_number PosInf NegInf = NaN"
| "plus_number NegInf PosInf = NaN"
| "plus_number PosInf y = PosInf"
| "plus_number x PosInf = PosInf"
| "plus_number NegInf y = NegInf"
| "plus_number x NegInf = NegInf"

fun minus_number :: "number \<Rightarrow> number \<Rightarrow> number" where
  "minus_number (Finite a) (Finite b) = roundToDouble (a - b)"
| "minus_number NaN y = NaN"
| "minus_number x NaN = NaN"
| "minus_number PosInf PosInf = NaN"
| "minus_number NegInf NegInf = NaN"
| "minus_number PosInf y = PosInf"
| "minus_number x NegInf = PosInf"
| "minus_number NegInf y = NegInf"
| "minus_number x PosInf = NegInf"

fun less_number :: "number \<Rightarrow> number \<Rightarrow> bool" where
  "less_number (Finite a) (Finite b) = (a < b)"
| "less_number NaN y = False"
| "less_number x NaN = False"
| "less_number PosInf y = False"
| "less_number x NegInf = False"
| "less_number x PosInf = True"
| "less_number NegInf y = True"

fun less_eq_number :: "number \<Rightarrow> number \<Rightarrow> bool" where
  "less_eq_number (Finite a) (Finite b) = (a \<le> b)"
| "less_eq_number NaN y = False"
| "less_eq_number x NaN = False"
| "less_eq_number x PosInf = True"
| "less_eq_number NegInf y = True"
| "less_eq_number PosInf y = False"
| "less_eq_number x NegInf = False"

instance ..

end

subsection \<open>The aggregate on numbers (domain/BankAccount.ts)\<close>

text \<open>
  The aggregate as above with \<open>number\<close> for the amounts and the balance.
  \<open>Number(x)\<close> of a number \<open>x\<close> is \<open>x\<close>.
\<close>

datatype EventData' =
    AccountCreatedData' string number string
  | MoneyDepositedData' number "string option" string
  | MoneyWithdrawnData' number "string option" string
  | AccountClosedData' "string option"

record DomainEvent' =
  eventId' :: string
  aggregateId' :: string
  aggregateType' :: string
  eventData' :: EventData'
  eventNumber' :: nat
  timestamp' :: nat
  version' :: nat

fun typeOfData' :: "EventData' \<Rightarrow> EventType" where
  "typeOfData' (AccountCreatedData' owner initialBalance cur) = AccountCreated"
| "typeOfData' (MoneyDepositedData' amount description transactionId) = MoneyDeposited"
| "typeOfData' (MoneyWithdrawnData' amount description transactionId) = MoneyWithdrawn"
| "typeOfData' (AccountClosedData' reason) = AccountClosed"

definition eventType' :: "DomainEvent' \<Rightarrow> EventType" where
  "eventType' e = typeOfData' (eventData' e)"

record BankAccountState' =
  accountId' :: string
  ownerName' :: string
  balance' :: number
  currency' :: string
  status' :: Status
  processedTransactionIds' :: "string list"

record BankAccount' =
  state' :: BankAccountState'
  changes' :: "DomainEvent' list"
  aggVersion' :: nat

definition new_BankAccount' :: BankAccount' where
  "new_BankAccount' =
     \<lparr> state' = \<lparr> accountId' = '''', ownerName' = '''', balance' = 0, currency' = '''',
                  status' = CLOSED, processedTransactionIds' = [] \<rparr>,
       changes' = [], aggVersion' = 0 \<rparr>"

fun applyData' :: "string \<Rightarrow> EventData' \<Rightarrow> BankAccountState' \<Rightarrow> BankAccountState'" where
  "applyData' aid (AccountCreatedData' owner initialBalance cur) s =
     s\<lparr> accountId' := aid, ownerName' := owner, balance' := initialBalance,
        currency' := cur, status' := OPEN \<rparr>"
| "applyData' aid (MoneyDepositedData' amount description transactionId) s =
     s\<lparr> balance' := balance' s + amount,
        processedTransactionIds' := add transactionId (processedTransactionIds' s) \<rparr>"
| "applyData' aid (MoneyWithdrawnData' amount description transactionId) s =
     s\<lparr> balance' := balance' s - amount,
        processedTransactionIds' := add transactionId (processedTransactionIds' s) \<rparr>"
| "applyData' aid (AccountClosedData' reason) s = s\<lparr> status' := CLOSED \<rparr>"

definition apply_event' :: "DomainEvent' \<Rightarrow> BankAccount' \<Rightarrow> BankAccount'" where
  "apply_event' event this =
     this\<lparr> state' := applyData' (aggregateId' event) (eventData' event) (state' this),
           aggVersion' := version' event \<rparr>"

definition push' :: "DomainEvent' \<Rightarrow> BankAccount' \<Rightarrow> BankAccount'" where
  "push' event this = this\<lparr> changes' := changes' this @ [event] \<rparr>"

definition newEvent' :: "string \<Rightarrow> string \<Rightarrow> EventData' \<Rightarrow> nat \<Rightarrow> nat \<Rightarrow> DomainEvent'" where
  "newEvent' uuid aid d n now =
     \<lparr> eventId' = uuid, aggregateId' = aid, aggregateType' = ''BankAccount'',
       eventData' = d, eventNumber' = n, timestamp' = now, version' = n \<rparr>"

definition create' :: "string \<Rightarrow> string \<Rightarrow> number \<Rightarrow> string \<Rightarrow> string \<Rightarrow> nat \<Rightarrow> BankAccount'" where
  "create' aid owner initialBalance cur uuid now =
     (let event = newEvent' uuid aid (AccountCreatedData' owner initialBalance cur) 1 now
      in push' event (apply_event' event new_BankAccount'))"

definition deposit' ::
  "number \<Rightarrow> string option \<Rightarrow> string \<Rightarrow> string \<Rightarrow> nat \<Rightarrow> BankAccount' \<Rightarrow> error option \<times> BankAccount'" where
  "deposit' amount description transactionId uuid now this =
     (if status' (state' this) = CLOSED then (Some AccountClosedError, this)
      else if amount \<le> 0 then (Some InvalidAmount, this)
      else if has (processedTransactionIds' (state' this)) transactionId then (None, this)
      else
        let newVersion = aggVersion' this + 1;
            event = newEvent' uuid (accountId' (state' this))
                      (MoneyDepositedData' amount description transactionId) newVersion now
        in (None, push' event (apply_event' event this)))"

definition withdraw' ::
  "number \<Rightarrow> string option \<Rightarrow> string \<Rightarrow> string \<Rightarrow> nat \<Rightarrow> BankAccount' \<Rightarrow> error option \<times> BankAccount'" where
  "withdraw' amount description transactionId uuid now this =
     (if status' (state' this) = CLOSED then (Some AccountClosedError, this)
      else if amount \<le> 0 then (Some InvalidAmount, this)
      else if balance' (state' this) < amount then (Some InsufficientFunds, this)
      else if has (processedTransactionIds' (state' this)) transactionId then (None, this)
      else
        let newVersion = aggVersion' this + 1;
            event = newEvent' uuid (accountId' (state' this))
                      (MoneyWithdrawnData' amount description transactionId) newVersion now
        in (None, push' event (apply_event' event this)))"

definition close' :: "string option \<Rightarrow> string \<Rightarrow> nat \<Rightarrow> BankAccount' \<Rightarrow> error option \<times> BankAccount'" where
  "close' reason uuid now this =
     (if status' (state' this) = CLOSED then (Some AlreadyClosed, this)
      else if balance' (state' this) \<noteq> 0 then (Some NonZeroBalance, this)
      else
        let newVersion = aggVersion' this + 1;
            event = newEvent' uuid (accountId' (state' this)) (AccountClosedData' reason) newVersion now
        in (None, push' event (apply_event' event this)))"


datatype Command' =
    Deposit' number "string option" string string nat
  | Withdraw' number "string option" string string nat
  | Close' "string option" string nat

fun handle' :: "Command' \<Rightarrow> BankAccount' \<Rightarrow> error option \<times> BankAccount'" where
  "handle' (Deposit' amount description transactionId uuid now) a =
     deposit' amount description transactionId uuid now a"
| "handle' (Withdraw' amount description transactionId uuid now) a =
     withdraw' amount description transactionId uuid now a"
| "handle' (Close' reason uuid now) a = close' reason uuid now a"

fun accepted' :: "Command' list \<Rightarrow> BankAccount' \<Rightarrow> BankAccount' option" where
  "accepted' [] a = Some a"
| "accepted' (c # cs) a =
     (case handle' c a of
        (Some err, a') \<Rightarrow> None
      | (None, a') \<Rightarrow> accepted' cs a')"

text \<open>The amount of a command, and the commands whose amount is a finite number.\<close>

fun amountOf :: "Command' \<Rightarrow> number" where
  "amountOf (Deposit' amount description transactionId uuid now) = amount"
| "amountOf (Withdraw' amount description transactionId uuid now) = amount"
| "amountOf (Close' reason uuid now) = 0"

definition finiteAmounts :: "Command' list \<Rightarrow> bool" where
  "finiteAmounts cs = (filter (\<lambda>c. \<not> isFinite (amountOf c)) cs = [])"


text \<open>Accounts on numbers that commands produce, used as concrete inputs below: an open
  account with balance 10, an account closed at balance 0, and the accounts that a
  deposit of \<open>NaN\<close> and a deposit and a withdrawal of \<open>Infinity\<close> leave.\<close>

definition openAccount' :: BankAccount' where
  "openAccount' =
     snd (deposit' (Finite 10) None ''t1'' ''u2'' 20 (create' ''acc'' ''Ann'' (Finite 0) ''EUR'' ''u1'' 10))"

definition emptiedAccount' :: BankAccount' where
  "emptiedAccount' = snd (close' None ''u2'' 20 (create' ''acc'' ''Ann'' (Finite 0) ''EUR'' ''u1'' 10))"

definition nanAccount :: BankAccount' where
  "nanAccount = snd (deposit' NaN None ''t1'' ''u2'' 20 (create' ''acc'' ''Ann'' (Finite 0) ''EUR'' ''u1'' 10))"

definition infAccount :: BankAccount' where
  "infAccount =
     snd (withdraw' PosInf None ''t2'' ''u3'' 30
       (snd (deposit' PosInf None ''t1'' ''u2'' 20 (create' ''acc'' ''Ann'' (Finite 0) ''EUR'' ''u1'' 10))))"


subsection \<open>The types of the columns (seeds/init.sql)\<close>

text \<open>
  PostgreSQL converts the text of every parameter of a statement to the type that the
  statement gives it, and refuses the statement when a text does not convert.
  \<^item> A text with the character NUL is refused by every textual type.
  \<^item> \<open>VARCHAR(n)\<close> refuses a text of more than \<open>n\<close> characters, unless the characters
    after the \<open>n\<close>-th are all spaces: these are cut off.
  \<^item> \<open>INTEGER\<close> takes the numbers up to \<open>2^31 - 1\<close> and \<open>BIGINT\<close> those up to
    \<open>2^63 - 1\<close> (event numbers and versions are not negative).
  \<^item> \<open>UUID\<close> takes 32 hexadecimal digits, optionally in braces and with an optional
    hyphen after every group of four digits, and gives them back in lower case in groups
    of 8, 4, 4, 4 and 12.
  \<^item> \<open>JSONB\<close> refuses a document with a string that has the character NUL.
  A conversion that refuses its text is \<open>None\<close>.
\<close>

definition sqlText :: "string \<Rightarrow> string option" where
  "sqlText s = (if CHR 0x00 \<in> set s then None else Some s)"

definition varchar :: "nat \<Rightarrow> string \<Rightarrow> string option" where
  "varchar n s =
     (if CHR 0x00 \<in> set s then None
      else if length s \<le> n then Some s
      else if filter (\<lambda>c. c \<noteq> CHR '' '') (drop n s) = [] then Some (take n s)
      else None)"

definition sqlInteger :: "nat \<Rightarrow> nat option" where
  "sqlInteger n = (if n \<le> 2147483647 then Some n else None)"

definition sqlBigint :: "nat \<Rightarrow> nat option" where
  "sqlBigint n = (if n \<le> 9223372036854775807 then Some n else None)"

definition isxdigit :: "char \<Rightarrow> bool" where
  "isxdigit c = (c \<in> set ''0123456789abcdefABCDEF'')"

definition tolower :: "char \<Rightarrow> char" where
  "tolower c = (case map_of (zip ''ABCDEF'' ''abcdef'') c of None \<Rightarrow> c | Some l \<Rightarrow> l)"

text \<open>\<open>uuidBytes n src\<close> reads \<open>n\<close> bytes of two digits each and gives the digits and
  the rest of the text; a hyphen is skipped after a byte when an even number of bytes,
  and not none, is still to come.\<close>

fun uuidBytes :: "nat \<Rightarrow> string \<Rightarrow> (string \<times> string) option" where
  "uuidBytes 0 src = Some ([], src)"
| "uuidBytes (Suc n) (a # b # src) =
     (if isxdigit a \<and> isxdigit b
      then (case uuidBytes n (if n \<noteq> 0 \<and> even n \<and> take 1 src = ''-'' then drop 1 src else src) of
              None \<Rightarrow> None
            | Some (digits, rest) \<Rightarrow> Some (tolower a # tolower b # digits, rest))
      else None)"
| "uuidBytes (Suc n) src = None"

definition uuid_out :: "string \<Rightarrow> string" where
  "uuid_out digits =
     take 8 digits @ ''-'' @ take 4 (drop 8 digits) @ ''-'' @ take 4 (drop 12 digits) @ ''-''
       @ take 4 (drop 16 digits) @ ''-'' @ drop 20 digits"

definition sqlUuid :: "string \<Rightarrow> string option" where
  "sqlUuid s =
     (let braces = (take 1 s = ''{'');
          src = (if braces then drop 1 s else s)
      in case uuidBytes 16 src of
           None \<Rightarrow> None
         | Some (digits, rest) \<Rightarrow>
             if rest = (if braces then ''}'' else []) then Some (uuid_out digits) else None)"

fun dataStrings :: "EventData \<Rightarrow> string list" where
  "dataStrings (AccountCreatedData owner initialBalance cur) = [owner, cur]"
| "dataStrings (MoneyDepositedData amount description transactionId) =
     (case description of None \<Rightarrow> [] | Some d \<Rightarrow> [d]) @ [transactionId]"
| "dataStrings (MoneyWithdrawnData amount description transactionId) =
     (case description of None \<Rightarrow> [] | Some d \<Rightarrow> [d]) @ [transactionId]"
| "dataStrings (AccountClosedData reason) = (case reason of None \<Rightarrow> [] | Some r \<Rightarrow> [r])"

definition jsonb :: "EventData \<Rightarrow> EventData option" where
  "jsonb d = (if filter (\<lambda>s. CHR 0x00 \<in> set s) (dataStrings d) = [] then Some d else None)"

subsection \<open>The event store on the typed table (lib/EventStore.ts)\<close>

text \<open>
  \<open>eventsRow\<close> is the row that the INSERT of \<open>save\<close> makes of an event: every value
  converted to the type of its column. (The event type is one of four short words, and a
  \<open>Date\<close> is always a \<open>TIMESTAMPTZ\<close>.) \<open>save'\<close> is \<open>save\<close> on the typed table: the
  parameters of the SELECT are converted, then those of the INSERT, then the INSERT checks
  the primary key \<open>event_id\<close> and the constraint \<open>UNIQUE(aggregate_id, event_number)\<close>
  on the row. It throws its own error for a conflict and the error of the database
  otherwise; every throw rolls the transaction back.
\<close>

definition eventsRow :: "DomainEvent \<Rightarrow> DomainEvent option" where
  "eventsRow event =
     (case (sqlUuid (eventId event), varchar 255 (aggregateId event),
            varchar 255 (aggregateType event), jsonb (eventData event),
            sqlInteger (eventNumber event), sqlInteger (version event)) of
        (Some event_id, Some aggregate_id, Some aggregate_type, Some event_data,
         Some event_number, Some version_number) \<Rightarrow>
          Some (event\<lparr> eventId := event_id, aggregateId := aggregate_id,
                        aggregateType := aggregate_type \<rparr>)
      | _ \<Rightarrow> None)"

datatype dbError = InvalidValue | DuplicateKey

datatype saveError = ConcurrencyConflict' nat string | DatabaseError dbError

definition save' :: "DomainEvent \<Rightarrow> DomainEvent list \<Rightarrow> saveError option \<times> DomainEvent list" where
  "save' event rows =
     (case (sqlText (aggregateId event), sqlInteger (eventNumber event)) of
        (Some aid, Some n) \<Rightarrow>
          let checkResult = filter (\<lambda>row. aggregateId row = aid \<and> eventNumber row = n) rows
          in if length checkResult > 0
             then (Some (ConcurrencyConflict' (eventNumber event) (aggregateId event)), rows)
             else
               (case eventsRow event of
                  None \<Rightarrow> (Some (DatabaseError InvalidValue), rows)
                | Some row \<Rightarrow>
                    if filter (\<lambda>r. eventId r = eventId row
                                   \<or> (aggregateId r = aggregateId row \<and> eventNumber r = eventNumber row))
                         rows \<noteq> []
                    then (Some (DatabaseError DuplicateKey), rows)
                    else (None, rows @ [row]))
      | _ \<Rightarrow> (Some (DatabaseError InvalidValue), rows))"

text \<open>The tables that \<open>save'\<close> can have written: every row is a row as stored.\<close>

definition tableRows :: "DomainEvent list \<Rightarrow> bool" where
  "tableRows rows = (filter (\<lambda>row. eventsRow row \<noteq> Some row) rows = [])"

text \<open>Events for the typed table: one stored, one that follows it, one with its aggregate
  and number, and one for an account whose identifier has 256 characters.\<close>

definition storedRow :: DomainEvent where
  "storedRow =
     newEvent ''11111111-1111-4111-8111-111111111111'' ''acc'' (AccountCreatedData ''Ann'' 0 ''EUR'') 1 10"

definition nextRow :: DomainEvent where
  "nextRow =
     newEvent ''22222222-2222-4222-8222-222222222222'' ''acc'' (MoneyDepositedData 10 None ''t1'') 2 20"

definition clashingRow :: DomainEvent where
  "clashingRow =
     newEvent ''33333333-3333-4333-8333-333333333333'' ''acc'' (MoneyDepositedData 7 None ''t9'') 1 30"

definition longIdEvent :: DomainEvent where
  "longIdEvent =
     newEvent ''44444444-4444-4444-8444-444444444444'' (replicate 256 CHR ''a'')
       (AccountCreatedData ''Ann'' 0 ''EUR'') 1 10"


subsection \<open>The projector on the typed tables (lib/Projector.ts)\<close>

text \<open>
  A value of the SQL type \<open>numeric\<close> is a decimal number or \<open>NaN\<close>. A column
  \<open>DECIMAL(19,4)\<close> rounds a number to four decimal places, a tie away from zero, and
  refuses it when the result does not fit in fifteen digits before the point.

  The driver hands a JavaScript number to the database as the text that
  \<open>Number.prototype.toString\<close> gives. For a finite number this is the shortest decimal
  that reads back as the same double (for a whole number below \<open>10^21\<close>: its digits);
  the value of that text is the parameter \<open>decimalText\<close> of the projector. The text of
  \<open>NaN\<close> is a value of \<open>numeric\<close>. The texts of the infinities are values of
  \<open>numeric\<close> or not, by the version of the database; no \<open>DECIMAL(19,4)\<close> column holds
  them, and every statement of the projector with an amount ends in such a column, so
  the conversion refuses them.
\<close>

datatype numeric = Numeric rat | NumericNaN

definition roundHalfAway :: "rat \<Rightarrow> int" where
  "roundHalfAway x = (if 0 \<le> x then \<lfloor>x + 1 / 2\<rfloor> else - \<lfloor>- x + 1 / 2\<rfloor>)"

definition decimal19_4 :: "numeric \<Rightarrow> numeric option" where
  "decimal19_4 v =
     (case v of
        NumericNaN \<Rightarrow> Some NumericNaN
      | Numeric q \<Rightarrow>
          let r = of_int (roundHalfAway (q * 10 ^ 4)) / 10 ^ 4
          in if 10 ^ 15 \<le> \<bar>r\<bar> then None else Some (Numeric r))"

definition sqlNumeric :: "(rat \<Rightarrow> rat) \<Rightarrow> number \<Rightarrow> numeric option" where
  "sqlNumeric decimalText x =
     (case x of
        Finite q \<Rightarrow> Some (Numeric (decimalText q))
      | NaN \<Rightarrow> Some NumericNaN
      | PosInf \<Rightarrow> None
      | NegInf \<Rightarrow> None)"

fun numericPlus :: "numeric \<Rightarrow> numeric \<Rightarrow> numeric" where
  "numericPlus (Numeric a) (Numeric b) = Numeric (a + b)"
| "numericPlus x y = NumericNaN"

fun numericMinus :: "numeric \<Rightarrow> numeric \<Rightarrow> numeric" where
  "numericMinus (Numeric a) (Numeric b) = Numeric (a - b)"
| "numericMinus x y = NumericNaN"

record SummaryRow' =
  owner_name' :: string
  balance_col' :: numeric
  currency_col' :: string
  status_col' :: Status
  version_col' :: nat

record TransactionRow' =
  account_id' :: string
  type_col' :: string
  amount_col' :: numeric
  description_col' :: string
  timestamp_col' :: nat

record ReadModels' =
  account_summaries' :: "string \<rightharpoonup> SummaryRow'"
  transaction_history' :: "string \<rightharpoonup> TransactionRow'"


text \<open>
  The functions of the projector give \<open>None\<close> when the database refuses a statement.
  \<open>updateBalance\<close> is \<open>UPDATE account_summaries SET balance = ..., version = ... WHERE
  account_id = ...\<close>: the new balance goes into the \<open>DECIMAL(19,4)\<close> column of the row, if
  there is one.
\<close>

definition updateBalance ::
  "string \<Rightarrow> (numeric \<Rightarrow> numeric) \<Rightarrow> nat \<Rightarrow> (string \<rightharpoonup> SummaryRow') \<Rightarrow> (string \<rightharpoonup> SummaryRow') option" where
  "updateBalance k f v table =
     (case table k of
        None \<Rightarrow> Some table
      | Some row \<Rightarrow>
          (case decimal19_4 (f (balance_col' row)) of
             None \<Rightarrow> None
           | Some b \<Rightarrow> Some (table(k \<mapsto> row\<lparr> balance_col' := b, version_col' := v \<rparr>))))"

definition projectAccountCreated' ::
  "(rat \<Rightarrow> rat) \<Rightarrow> DomainEvent' \<Rightarrow> string \<Rightarrow> number \<Rightarrow> string \<Rightarrow> ReadModels' \<Rightarrow> ReadModels' option" where
  "projectAccountCreated' decimalText event owner initialBalance cur db =
     (case (varchar 255 (aggregateId' event), varchar 255 owner,
            Option.bind (sqlNumeric decimalText initialBalance) decimal19_4,
            varchar 3 cur, sqlBigint (version' event)) of
        (Some k, Some own, Some b, Some c, Some v) \<Rightarrow>
          Some (db\<lparr> account_summaries' :=
                  insertOnConflictDoNothing k
                    \<lparr> owner_name' = own, balance_col' = b, currency_col' = c,
                      status_col' = OPEN, version_col' = v \<rparr>
                    (account_summaries' db) \<rparr>)
      | _ \<Rightarrow> None)"

definition projectMoneyDeposited' ::
  "(rat \<Rightarrow> rat) \<Rightarrow> DomainEvent' \<Rightarrow> number \<Rightarrow> string option \<Rightarrow> string \<Rightarrow> ReadModels' \<Rightarrow> ReadModels' option" where
  "projectMoneyDeposited' decimalText event amount description transactionId db =
     (case (sqlNumeric decimalText amount, sqlBigint (version' event), sqlText (aggregateId' event)) of
        (Some a, Some v, Some k) \<Rightarrow>
          (case updateBalance k (\<lambda>b. numericPlus b a) v (account_summaries' db) of
             None \<Rightarrow> None
           | Some summaries \<Rightarrow>
               (case (varchar 255 transactionId, varchar 255 (aggregateId' event), decimal19_4 a,
                      sqlText (orDefault description ''Deposit'')) of
                  (Some tid, Some aid, Some amt, Some descr) \<Rightarrow>
                    Some (db\<lparr> account_summaries' := summaries,
                             transaction_history' :=
                               insertOnConflictDoNothing tid
                                 \<lparr> account_id' = aid, type_col' = ''DEPOSIT'', amount_col' = amt,
                                   description_col' = descr, timestamp_col' = timestamp' event \<rparr>
                                 (transaction_history' db) \<rparr>)
                | _ \<Rightarrow> None))
      | _ \<Rightarrow> None)"

definition projectMoneyWithdrawn' ::
  "(rat \<Rightarrow> rat) \<Rightarrow> DomainEvent' \<Rightarrow> number \<Rightarrow> string option \<Rightarrow> string \<Rightarrow> ReadModels' \<Rightarrow> ReadModels' option" where
  "projectMoneyWithdrawn' decimalText event amount description transactionId db =
     (case (sqlNumeric decimalText amount, sqlBigint (version' event), sqlText (aggregateId' event)) of
        (Some a, Some v, Some k) \<Rightarrow>
          (case updateBalance k (\<lambda>b. numericMinus b a) v (account_summaries' db) of
             None \<Rightarrow> None
           | Some summaries \<Rightarrow>
               (case (varchar 255 transactionId, varchar 255 (aggregateId' event), decimal19_4 a,
                      sqlText (orDefault description ''Withdrawal'')) of
                  (Some tid, Some aid, Some amt, Some descr) \<Rightarrow>
                    Some (db\<lparr> account_summaries' := summaries,
                             transaction_history' :=
                               insertOnConflictDoNothing tid
                                 \<lparr> account_id' = aid, type_col' = ''WITHDRAWAL'', amount_col' = amt,
                                   description_col' = descr, timestamp_col' = timestamp' event \<rparr>
                                 (transaction_history' db) \<rparr>)
                | _ \<Rightarrow> None))
      | _ \<Rightarrow> None)"

definition projectAccountClosed' :: "DomainEvent' \<Rightarrow> ReadModels' \<Rightarrow> ReadModels' option" where
  "projectAccountClosed' event db =
     (case (sqlBigint (version' event), sqlText (aggregateId' event)) of
        (Some v, Some k) \<Rightarrow>
          Some (db\<lparr> account_summaries' :=
                  updateWhere k (\<lambda>row. row\<lparr> status_col' := CLOSED, version_col' := v \<rparr>)
                    (account_summaries' db) \<rparr>)
      | _ \<Rightarrow> None)"

text \<open>
  \<open>tryProject'\<close> is the \<open>try\<close> block of \<open>Projector.project\<close>: \<open>None\<close> when a statement
  throws. \<open>project'\<close> is \<open>project\<close>: the \<open>catch\<close> block rolls the transaction back, logs
  the error and returns, so a refused projection leaves the read models as they were.
\<close>

definition tryProject' :: "(rat \<Rightarrow> rat) \<Rightarrow> DomainEvent' \<Rightarrow> ReadModels' \<Rightarrow> ReadModels' option" where
  "tryProject' decimalText event db =
     (case sqlText (aggregateId' event) of
        None \<Rightarrow> None
      | Some k \<Rightarrow>
          let summaryRes = account_summaries' db k;
              currentVersion = (case summaryRes of None \<Rightarrow> 0 | Some row \<Rightarrow> version_col' row)
          in if version' event \<le> currentVersion \<and> eventType' event \<noteq> AccountCreated then Some db
             else
               (case eventData' event of
                  AccountCreatedData' owner initialBalance cur \<Rightarrow>
                    if summaryRes = None
                    then projectAccountCreated' decimalText event owner initialBalance cur db
                    else Some db
                | MoneyDepositedData' amount description transactionId \<Rightarrow>
                    projectMoneyDeposited' decimalText event amount description transactionId db
                | MoneyWithdrawnData' amount description transactionId \<Rightarrow>
                    projectMoneyWithdrawn' decimalText event amount description transactionId db
                | AccountClosedData' reason \<Rightarrow> projectAccountClosed' event db))"


text \<open>The projection of a list of events in which the database refuses nothing.\<close>

fun projectEach :: "(rat \<Rightarrow> rat) \<Rightarrow> DomainEvent' list \<Rightarrow> ReadModels' \<Rightarrow> ReadModels' option" where
  "projectEach decimalText [] db = Some db"
| "projectEach decimalText (event # rest) db =
     (case tryProject' decimalText event db of
        None \<Rightarrow> None
      | Some db' \<Rightarrow> projectEach decimalText rest db')"



















section \<open>Properties of the aggregate\<close>

lemmas aggregate_defs =
  deposit_def withdraw_def close_def create_def Let_def push_def apply_event_def newEvent_def
  new_BankAccount_def has_def add_def

lemma aggVersion_apply_event: "aggVersion (apply_event e a) = version e"
  by (simp add: apply_event_def)

lemma replay_Nil: "replay [] a = a" by (simp add: replay_def)
lemma replay_Cons: "replay (e # es) a = replay es (apply_event e a)" by (simp add: replay_def)
lemma replay_append: "replay (xs @ ys) a = replay ys (replay xs a)" by (simp add: replay_def)
lemma replay_snoc: "replay (xs @ [e]) a = apply_event e (replay xs a)" by (simp add: replay_def)

lemma aggVersion_replay:
  "aggVersion (replay es a) = (if es = [] then aggVersion a else version (last es))"
  by (induction es arbitrary: a) (auto simp: replay_Nil replay_Cons aggVersion_apply_event)

lemma handle_new_event_version:
  assumes "handle c a = (None, a')" and "changes a' \<noteq> changes a"
  shows "aggVersion a' = aggVersion a + 1"
  using assms
  by (cases c)
     (auto simp: deposit_def withdraw_def close_def Let_def push_def apply_event_def newEvent_def
           split: if_splits)

lemma gapless_step:
  assumes "map version es = [Suc (aggVersion a) ..< Suc (aggVersion a) + length es]"
    and "i < length es"
  shows "aggVersion (replay (take (Suc i) es) a) = aggVersion (replay (take i es) a) + 1"
proof -
  have v: "\<And>j. j < length es \<Longrightarrow> version (es ! j) = Suc (aggVersion a) + j"
  proof -
    fix j assume j: "j < length es"
    then have "version (es ! j) = map version es ! j" by simp
    also have "\<dots> = Suc (aggVersion a) + j" using j by (simp add: assms(1) del: upt_Suc)
    finally show "version (es ! j) = Suc (aggVersion a) + j" .
  qed
  have r: "\<And>j. j \<le> length es \<Longrightarrow> aggVersion (replay (take j es) a) = aggVersion a + j"
  proof -
    fix j assume j: "j \<le> length es"
    show "aggVersion (replay (take j es) a) = aggVersion a + j"
    proof (cases j)
      case 0 then show ?thesis by (simp add: replay_Nil)
    next
      case (Suc m)
      then have m: "m < length es" using j by simp
      then have "take j es \<noteq> []" using Suc by auto
      moreover have "last (take j es) = es ! m" using m Suc
        by (simp add: take_Suc_conv_app_nth)
      ultimately show ?thesis using v[OF m] Suc by (simp add: aggVersion_replay)
    qed
  qed
  show ?thesis using r[of "Suc i"] r[of i] assms(2) by simp
qed

lemma accepted_status_inv:
  "accepted cs a = Some a' \<Longrightarrow> (status (state a) = CLOSED \<longrightarrow> balance (state a) = 0)
     \<Longrightarrow> (status (state a') = CLOSED \<longrightarrow> balance (state a') = 0)"
proof (induction cs arbitrary: a)
  case Nil then show ?case by simp
next
  case (Cons c cs)
  obtain r a1 where h: "handle c a = (r, a1)" by (cases "handle c a")
  with Cons.prems(1) have r: "r = None" and acc: "accepted cs a1 = Some a'"
    by (auto split: option.splits)
  have "status (state a1) = CLOSED \<longrightarrow> balance (state a1) = 0"
    using h r Cons.prems(2)
    by (cases c)
       (auto simp: deposit_def withdraw_def close_def Let_def push_def apply_event_def newEvent_def
             split: if_splits)
  from Cons.IH[OF acc this] show ?case .
qed

lemma create_open: "status (state (create aid owner b0 cur u t)) = OPEN"
  by (simp add: create_def Let_def push_def apply_event_def newEvent_def new_BankAccount_def)

lemma close_CLOSED: "status (state a) = CLOSED \<Longrightarrow> close r u t a = (Some AlreadyClosed, a)"
  by (simp add: close_def)

lemma close_nonzero:
  "status (state a) = OPEN \<Longrightarrow> balance (state a) \<noteq> 0 \<Longrightarrow> close r u t a = (Some NonZeroBalance, a)"
  by (simp add: close_def)

lemma close_ok_iff:
  "fst (close r u t a) = None \<longleftrightarrow> status (state a) = OPEN \<and> balance (state a) = 0"
  by (cases "status (state a)") (simp_all add: close_def Let_def)

lemma reachable_closed_zero:
  assumes "accepted cs (create aid owner b0 cur u0 t0) = Some a"
  shows "status (state a) = CLOSED \<longrightarrow> balance (state a) = 0"
  using accepted_status_inv[OF assms] by (simp add: create_open)

lemma create_balance: "balance (state (create aid owner b0 cur u t)) = b0"
  by (simp add: create_def Let_def push_def apply_event_def newEvent_def new_BankAccount_def)

lemma openAccount_accepted:
  "accepted [Deposit 10 None ''t1'' ''u2'' 20] (create ''acc'' ''Ann'' 0 ''EUR'' ''u1'' 10) = Some openAccount"
  by (simp add: openAccount_def aggregate_defs)

lemma openAccount_state:
  "status (state openAccount) = OPEN" "balance (state openAccount) = 10"
  "has (processedTransactionIds (state openAccount)) ''t1''"
  by (simp_all add: openAccount_def aggregate_defs)

lemma closedAccount_state:
  "status (state closedAccount) = CLOSED" "balance (state closedAccount) = 0"
  by (simp_all add: closedAccount_def aggregate_defs)

subsection \<open>C9: the version after applying an event\<close>

text \<open>
  Claim C9 says that applying an event, new or replayed, to any aggregate state advances
  the version counter by exactly 1. \<open>BankAccount.apply\<close> assigns
  \<open>this.version = event.version\<close>; it does not count. As amended: applying an event
  sets the aggregate's version to the version of the event. This is an advance by exactly
  1 for every event that a command newly produces (the command numbers it
  \<open>version + 1\<close>), and at every step of the replay of a list of events that continues
  the aggregate's version without a gap.
\<close>

theorem apply_event_version:
  "aggVersion (apply_event e a) = version e
   \<and> (handle c a = (None, a') \<and> changes a' \<noteq> changes a \<longrightarrow> aggVersion a' = aggVersion a + 1)
   \<and> (gapless (aggVersion a) es \<and> i < length es \<longrightarrow>
        aggVersion (replay (take (Suc i) es) a) = aggVersion (replay (take i es) a) + 1)"
  using handle_new_event_version[of c a a'] gapless_step[of es a i]
  by (simp add: aggVersion_apply_event gapless_def)

theorem apply_event_version_witness:
  "handle (Deposit 5 None ''t1'' ''u2'' 20) (create ''acc'' ''Ann'' 0 ''EUR'' ''u1'' 10)
     = (None, snd (deposit 5 None ''t1'' ''u2'' 20 (create ''acc'' ''Ann'' 0 ''EUR'' ''u1'' 10)))
   \<and> aggVersion (create ''acc'' ''Ann'' 0 ''EUR'' ''u1'' 10) = 1
   \<and> aggVersion (snd (deposit 5 None ''t1'' ''u2'' 20 (create ''acc'' ''Ann'' 0 ''EUR'' ''u1'' 10))) = 2
   \<and> gapless (aggVersion new_BankAccount)
        [newEvent ''u1'' ''acc'' (AccountCreatedData ''Ann'' 0 ''EUR'') 1 10,
         newEvent ''u2'' ''acc'' (MoneyDepositedData 5 None ''t1'') 2 20]
   \<and> aggVersion (replay (take (Suc 1)
        [newEvent ''u1'' ''acc'' (AccountCreatedData ''Ann'' 0 ''EUR'') 1 10,
         newEvent ''u2'' ''acc'' (MoneyDepositedData 5 None ''t1'') 2 20]) new_BankAccount) = 2"
  using apply_event_version[of
      "newEvent ''u2'' ''acc'' (MoneyDepositedData 5 None ''t1'') 2 20"
      "create ''acc'' ''Ann'' 0 ''EUR'' ''u1'' 10"
      "Deposit 5 None ''t1'' ''u2'' 20"
      "snd (deposit 5 None ''t1'' ''u2'' 20 (create ''acc'' ''Ann'' 0 ''EUR'' ''u1'' 10))"
      "[newEvent ''u1'' ''acc'' (AccountCreatedData ''Ann'' 0 ''EUR'') 1 10,
         newEvent ''u2'' ''acc'' (MoneyDepositedData 5 None ''t1'') 2 20]" 1]
  by (simp add: aggregate_defs gapless_def replay_def)

text \<open>
  The claim as stated fails where the event's version is not the successor of the
  aggregate's: an event numbered 5 applied to an account at version 0 leaves it at
  version 5, not 1. The routes reach such a replay: in the history of account A whose
  second event carries the earlier timestamp, the point-in-time query for time 1500
  replays event number 2 alone, and the fresh aggregate goes from version 0 to version 2.
\<close>

theorem apply_event_version_counterexample:
  "aggVersion new_BankAccount = 0
   \<and> version strayEvent = 5
   \<and> aggVersion (apply_event strayEvent new_BankAccount) = 5
   \<and> aggVersion (apply_event strayEvent new_BankAccount) \<noteq> aggVersion new_BankAccount + 1
   \<and> filter (\<lambda>e. timestamp e \<le> 1500) (getEvents ''A'' 0 clockBackEvents) = [clockBackEvents ! 1]
   \<and> aggVersion (hydrate [clockBackEvents ! 1] None) = 2"
  by (simp add: strayEvent_def clockBackEvents_def getEvents_def hydrate_def replay_def aggregate_defs)

subsection \<open>C2: a transaction identifier that was already processed\<close>

text \<open>
  Claim C2 says that on every account state a deposit or a withdrawal whose
  transactionId is already in the processed set is a no-op without an error. In the code
  the checks of the command come before the look-up of the transactionId. As amended: on
  an OPEN account, a deposit with a positive amount, and a withdrawal with a positive
  amount that the balance covers, whose transactionId is in the processed set, emits no
  event, raises no error and leaves the aggregate unchanged.
\<close>

theorem duplicate_transaction_noop:
  "(status (state a) = OPEN \<and> 0 < amount \<and> has (processedTransactionIds (state a)) tx \<longrightarrow>
      deposit amount d tx u t a = (None, a))
   \<and> (status (state a) = OPEN \<and> 0 < amount \<and> amount \<le> balance (state a)
        \<and> has (processedTransactionIds (state a)) tx \<longrightarrow>
      withdraw amount d tx u t a = (None, a))"
  by (cases "status (state a)") (simp_all add: deposit_def withdraw_def)

theorem duplicate_transaction_noop_witness:
  "status (state openAccount) = OPEN \<and> has (processedTransactionIds (state openAccount)) ''t1''
   \<and> deposit 10 None ''t1'' ''u9'' 90 openAccount = (None, openAccount)
   \<and> withdraw 10 None ''t1'' ''u9'' 90 openAccount = (None, openAccount)"
  using duplicate_transaction_noop[of openAccount 10 "''t1''" None "''u9''" 90] openAccount_state
  by simp

text \<open>
  The claim as stated fails on an account that was closed after the transaction: the
  repeated deposit \<open>t1\<close> and the repeated withdrawal \<open>t2\<close> are refused with
  "Account is closed".
\<close>

theorem duplicate_transaction_noop_counterexample:
  "has (processedTransactionIds (state closedAccount)) ''t1''
   \<and> deposit 10 None ''t1'' ''u9'' 90 closedAccount = (Some AccountClosedError, closedAccount)
   \<and> has (processedTransactionIds (state closedAccount)) ''t2''
   \<and> withdraw 10 None ''t2'' ''u9'' 90 closedAccount = (Some AccountClosedError, closedAccount)"
  by (simp add: closedAccount_def aggregate_defs)

section \<open>The example system\<close>

lemmas route_defs =
  postAccounts_def postDeposit_def postWithdraw_def postClose_def loadBankAccount_def
  getSnapshot_def saveSnapshot_def getEvents_def hydrate_def replay_def getVersion_def
  getUncommittedChanges_def save_def snapshotData_def Array_from_def

lemma exampleSystem_events: "events exampleSystem = exampleEvents"
  by (simp add: exampleSystem_def exampleRequests_def exampleEvents_def emptySystem_def route_defs
      aggregate_defs)

lemma exampleSystem_accepted: "serveAccepted exampleRequests emptySystem = Some exampleSystem"
  by (simp add: exampleSystem_def exampleRequests_def emptySystem_def route_defs
      aggregate_defs)

section \<open>Properties of the event store\<close>

lemma filter_nonempty_iff: "filter P xs \<noteq> [] \<longleftrightarrow> (\<exists>x \<in> set xs. P x)"
  by (simp add: filter_empty_conv)

lemma save_conflict:
  "pairStored event rows \<Longrightarrow>
   save event rows = (Some (ConcurrencyConflict (eventNumber event) (aggregateId event)), rows)"
  unfolding save_def pairStored_def Let_def
  by (simp add: filter_empty_conv)

lemma save_unique_violation:
  "\<not> pairStored event rows \<Longrightarrow> idStored event rows \<Longrightarrow>
   save event rows = (Some (UniqueViolation (eventId event)), rows)"
  unfolding save_def pairStored_def idStored_def Let_def
  by (simp add: filter_empty_conv)

lemma save_ok:
  "\<not> pairStored event rows \<Longrightarrow> \<not> idStored event rows \<Longrightarrow> save event rows = (None, rows @ [event])"
  unfolding save_def pairStored_def idStored_def Let_def
  by (simp add: filter_empty_conv)

lemma save_cases:
  "save event rows = (Some (ConcurrencyConflict (eventNumber event) (aggregateId event)), rows) \<and> pairStored event rows
   \<or> save event rows = (Some (UniqueViolation (eventId event)), rows) \<and> \<not> pairStored event rows \<and> idStored event rows
   \<or> save event rows = (None, rows @ [event]) \<and> \<not> pairStored event rows \<and> \<not> idStored event rows"
  using save_conflict save_unique_violation save_ok by blast

section \<open>Properties of the projector\<close>

lemmas project_defs =
  project_def projectAccountCreated_def projectMoneyDeposited_def projectMoneyWithdrawn_def
  projectAccountClosed_def insertOnConflictDoNothing_def updateWhere_def eventType_def Let_def

lemma insert_idem:
  "insertOnConflictDoNothing k v (insertOnConflictDoNothing k v' t) = insertOnConflictDoNothing k v' t"
  by (simp add: insertOnConflictDoNothing_def split: option.splits)

lemma project_idempotent: "project e (project e db) = project e db"
proof (cases "eventData e")
  case (AccountCreatedData owner b cur)
  then show ?thesis
    by (cases "account_summaries db (aggregateId e)")
       (simp_all add: project_defs)
next
  case (MoneyDepositedData amount d tx)
  then show ?thesis
    by (cases "account_summaries db (aggregateId e)"; cases "transaction_history db tx")
       (simp_all add: project_defs)
next
  case (MoneyWithdrawnData amount d tx)
  then show ?thesis
    by (cases "account_summaries db (aggregateId e)"; cases "transaction_history db tx")
       (simp_all add: project_defs)
next
  case (AccountClosedData r)
  then show ?thesis
    by (cases "account_summaries db (aggregateId e)")
       (simp_all add: project_defs)
qed

lemma project_skips:
  assumes "account_summaries db (aggregateId e) = Some row" "version e \<le> version_col row"
    "eventType e \<noteq> AccountCreated"
  shows "project e db = db"
  using assms by (simp add: project_def)

lemma project_created_existing:
  assumes "eventType e = AccountCreated" "account_summaries db (aggregateId e) = Some row"
  shows "project e db = db"
  using assms by (cases "eventData e") (simp_all add: project_def eventType_def)

lemma project_keeps_transaction:
  assumes "transaction_history db tx = Some trow"
  shows "transaction_history (project e db) tx = Some trow"
  using assms
  by (cases "eventData e")
     (auto simp: project_defs split: option.splits)

subsection \<open>C4: projection is idempotent\<close>

text \<open>
  Claim C4: projecting an event a second time leaves the read models as the first
  projection left them. An event other than an AccountCreated whose version is at most
  the version of the stored summary is skipped; an AccountCreated for an account that
  has a summary row neither inserts nor overwrites; and a transaction row that is stored
  is never replaced, so a repeated deposit or withdrawal adds no row for its
  transactionId.
\<close>

theorem projection_idempotent:
  "project e (project e db) = project e db
   \<and> (eventType e \<noteq> AccountCreated \<and> account_summaries db (aggregateId e) = Some row
        \<and> version e \<le> version_col row \<longrightarrow> project e db = db)
   \<and> (eventType e = AccountCreated \<and> account_summaries db (aggregateId e) = Some row \<longrightarrow>
        project e db = db)
   \<and> (transaction_history db tx = Some trow \<longrightarrow> transaction_history (project e db) tx = Some trow)"
  using project_idempotent[of e db] project_skips[of db e row] project_created_existing[of e db row]
    project_keeps_transaction[of db tx trow e]
  by blast

theorem projection_idempotent_witness:
  "account_summaries (readModels exampleSystem) ''A''
     = Some \<lparr> owner_name = ''Ann'', balance_col = 120, currency_col = ''EUR'', status_col = OPEN,
              version_col = 3 \<rparr>
   \<and> transaction_history (readModels exampleSystem) ''t1''
     = Some \<lparr> account_id = ''A'', type_col = ''DEPOSIT'', amount_col = 50,
              description_col = ''Deposit'', timestamp_col = 2000 \<rparr>
   \<and> project (exampleEvents ! 1) (readModels exampleSystem) = readModels exampleSystem
   \<and> project (exampleEvents ! 0) (readModels exampleSystem) = readModels exampleSystem
   \<and> transaction_history (project (exampleEvents ! 1) (readModels exampleSystem)) ''t1''
     = Some \<lparr> account_id = ''A'', type_col = ''DEPOSIT'', amount_col = 50,
              description_col = ''Deposit'', timestamp_col = 2000 \<rparr>"
proof -
  have a: "account_summaries (readModels exampleSystem) ''A''
     = Some \<lparr> owner_name = ''Ann'', balance_col = 120, currency_col = ''EUR'', status_col = OPEN,
              version_col = 3 \<rparr>"
    by (simp add: exampleSystem_def exampleRequests_def emptySystem_def emptyReadModels_def
        route_defs aggregate_defs project_defs orDefault_def)
  have b: "transaction_history (readModels exampleSystem) ''t1''
     = Some \<lparr> account_id = ''A'', type_col = ''DEPOSIT'', amount_col = 50,
              description_col = ''Deposit'', timestamp_col = 2000 \<rparr>"
    by (simp add: exampleSystem_def exampleRequests_def emptySystem_def emptyReadModels_def
        route_defs aggregate_defs project_defs orDefault_def)
  have c: "eventType (exampleEvents ! 1) \<noteq> AccountCreated" "aggregateId (exampleEvents ! 1) = ''A''"
    "version (exampleEvents ! 1) = 2" "eventType (exampleEvents ! 0) = AccountCreated"
    "aggregateId (exampleEvents ! 0) = ''A''"
    by (simp_all add: exampleEvents_def newEvent_def eventType_def)
  from projection_idempotent[of "exampleEvents ! 1" "readModels exampleSystem"
      "\<lparr> owner_name = ''Ann'', balance_col = 120, currency_col = ''EUR'', status_col = OPEN,
         version_col = 3 \<rparr>" "''t1''"
      "\<lparr> account_id = ''A'', type_col = ''DEPOSIT'', amount_col = 50,
         description_col = ''Deposit'', timestamp_col = 2000 \<rparr>"] a b c
  have d: "project (exampleEvents ! 1) (readModels exampleSystem) = readModels exampleSystem"
    "transaction_history (project (exampleEvents ! 1) (readModels exampleSystem)) ''t1''
     = Some \<lparr> account_id = ''A'', type_col = ''DEPOSIT'', amount_col = 50,
              description_col = ''Deposit'', timestamp_col = 2000 \<rparr>"
    by simp_all
  from projection_idempotent[of "exampleEvents ! 0" "readModels exampleSystem"
      "\<lparr> owner_name = ''Ann'', balance_col = 120, currency_col = ''EUR'', status_col = OPEN,
         version_col = 3 \<rparr>"] a c
  have e: "project (exampleEvents ! 0) (readModels exampleSystem) = readModels exampleSystem"
    by simp
  show ?thesis using a b d e by simp
qed

section \<open>Properties of hydration\<close>

lemma fold_add_distinct: "distinct (acc @ xs) \<Longrightarrow> fold add xs acc = acc @ xs"
proof (induction xs arbitrary: acc)
  case Nil then show ?case by simp
next
  case (Cons x xs)
  from Cons.prems have "\<not> has acc x" by (simp add: has_def)
  then have "add x acc = acc @ [x]" by (simp add: add_def)
  moreover from Cons.prems have "distinct ((acc @ [x]) @ xs)" by simp
  ultimately show ?case using Cons.IH[of "acc @ [x]"] by simp
qed

lemma new_Set_distinct: "distinct xs \<Longrightarrow> new_Set (Array_from xs) = xs"
  using fold_add_distinct[of "[]" xs] by (simp add: new_Set_def Array_from_def)

lemma distinct_add: "distinct s \<Longrightarrow> distinct (add x s)"
  by (simp add: add_def has_def)

lemma distinct_applyData:
  "distinct (processedTransactionIds s) \<Longrightarrow> distinct (processedTransactionIds (applyData aid d s))"
  by (cases d) (simp_all add: distinct_add)

lemma distinct_replay:
  "distinct (processedTransactionIds (state a)) \<Longrightarrow>
   distinct (processedTransactionIds (state (replay es a)))"
  by (induction es arbitrary: a) (simp_all add: replay_Nil replay_Cons apply_event_def distinct_applyData)

lemma changes_replay: "changes (replay es a) = changes a"
  by (induction es arbitrary: a) (simp_all add: replay_Nil replay_Cons apply_event_def)

lemma gapless_version_nth:
  assumes "gapless v es" "j < length es"
  shows "version (es ! j) = Suc v + j"
proof -
  have "version (es ! j) = map version es ! j" using assms(2) by simp
  also have "\<dots> = Suc v + j" using assms by (simp add: gapless_def del: upt_Suc)
  finally show ?thesis .
qed

lemma gapless_aggVersion:
  assumes "gapless (aggVersion a) es" "k \<le> length es"
  shows "aggVersion (replay (take k es) a) = aggVersion a + k"
proof (cases k)
  case 0 then show ?thesis by (simp add: replay_Nil)
next
  case (Suc m)
  then have m: "m < length es" using assms(2) by simp
  then have "take k es \<noteq> []" using Suc by auto
  moreover have "last (take k es) = es ! m" using m Suc by (simp add: take_Suc_conv_app_nth)
  ultimately show ?thesis using gapless_version_nth[OF assms(1) m] Suc by (simp add: aggVersion_replay)
qed

lemma gapless_filter_drop:
  assumes "gapless 0 es" "k \<le> length es"
  shows "filter (\<lambda>e. version e > k) es = drop k es"
proof -
  have es: "es = take k es @ drop k es" by simp
  have t: "\<forall>e \<in> set (take k es). \<not> version e > k"
  proof
    fix e assume "e \<in> set (take k es)"
    then obtain j where j: "j < length (take k es)" "take k es ! j = e"
      by (auto simp: in_set_conv_nth)
    then have "j < k" "j < length es" "es ! j = e" using assms(2) by auto
    then show "\<not> version e > k" using gapless_version_nth[OF assms(1), of j] by auto
  qed
  have d: "\<forall>e \<in> set (drop k es). version e > k"
  proof
    fix e assume "e \<in> set (drop k es)"
    then obtain j where j: "j < length (drop k es)" "drop k es ! j = e"
      by (auto simp: in_set_conv_nth)
    then have "k + j < length es" "es ! (k + j) = e" using assms(2) by auto
    then show "version e > k" using gapless_version_nth[OF assms(1), of "k + j"] by auto
  qed
  have "filter (\<lambda>e. version e > k) es
      = filter (\<lambda>e. version e > k) (take k es) @ filter (\<lambda>e. version e > k) (drop k es)"
    by (metis es filter_append)
  also have "\<dots> = drop k es" using t d by (simp add: filter_empty_conv filter_id_conv)
  finally show ?thesis .
qed

lemma getEvents_filter:
  "getEvents aid k rows = filter (\<lambda>e. version e > k) (getEvents aid 0 rows)"
proof -
  have "filter (\<lambda>e. version e > k) (getEvents aid 0 rows)
      = sort_key version (filter (\<lambda>e. version e > k) (filter (\<lambda>row. aggregateId row = aid \<and> version row > 0) rows))"
    by (simp add: getEvents_def filter_sort)
  also have "\<dots> = sort_key version (filter (\<lambda>row. aggregateId row = aid \<and> version row > k) rows)"
    by (simp add: conj_commute) (metis (mono_tags, lifting) filter_cong gr_implies_not0 neq0_conv)
  finally show ?thesis by (simp add: getEvents_def)
qed

lemma hydrate_snapshot:
  assumes "gapless 0 es" "k \<le> length es"
  shows "hydrate es None =
         hydrate (filter (\<lambda>e. version e > k) es) (Some (snapshotData (hydrate (take k es) None), k))"
proof -
  let ?a = "replay (take k es) new_BankAccount"
  have v: "aggVersion ?a = k"
    using gapless_aggVersion[of new_BankAccount es k] assms by (simp add: new_BankAccount_def)
  have c: "changes ?a = []" by (simp add: changes_replay new_BankAccount_def)
  have d: "distinct (processedTransactionIds (state ?a))"
    by (rule distinct_replay) (simp add: new_BankAccount_def)
  have "new_BankAccount\<lparr> state := (snapshotData ?a)\<lparr> processedTransactionIds :=
            new_Set (processedTransactionIds (snapshotData ?a)) \<rparr>, aggVersion := k \<rparr> = ?a"
    using v c new_Set_distinct[OF d] by (simp add: snapshotData_def new_BankAccount_def)
  then have "hydrate (drop k es) (Some (snapshotData (hydrate (take k es) None), k)) = replay (drop k es) ?a"
    by (simp add: hydrate_def)
  also have "\<dots> = replay (take k es @ drop k es) new_BankAccount" by (simp only: replay_append)
  also have "\<dots> = hydrate es None" by (simp add: hydrate_def)
  finally show ?thesis using gapless_filter_drop[OF assms] by simp
qed

section \<open>Histories without gaps\<close>

lemma getEvents_gapless:
  assumes "gapless 0 (filter (\<lambda>e. aggregateId e = aid) rows)"
  shows "getEvents aid 0 rows = filter (\<lambda>e. aggregateId e = aid) rows"
proof -
  let ?es = "filter (\<lambda>e. aggregateId e = aid) rows"
  have pos: "\<forall>e \<in> set ?es. version e > 0"
  proof
    fix e assume "e \<in> set ?es"
    then obtain j where "j < length ?es" "?es ! j = e" by (metis in_set_conv_nth)
    then show "version e > 0" using gapless_version_nth[OF assms, of j] by auto
  qed
  have f: "filter (\<lambda>row. aggregateId row = aid \<and> version row > 0) rows = ?es"
    by (rule filter_cong[OF refl]) (use pos in auto)
  have "sorted (map version ?es)" using assms by (simp add: gapless_def del: upt_Suc)
  then have "sort_key version ?es = ?es" by (rule sort_key_id_if_sorted)
  then show ?thesis by (simp add: getEvents_def f)
qed

section \<open>Properties of the rebuild\<close>

text \<open>Projections of events that do not depend on each other commute: each touches
  the summary row of its own aggregate and the row of its own transaction only.\<close>

lemma summaries_frame:
  "k \<noteq> aggregateId e \<Longrightarrow> account_summaries (project e db) k = account_summaries db k"
  by (cases "eventData e") (auto simp: project_defs split: option.splits)
























subsection \<open>C6: rebuild against incremental projection\<close>




section \<open>The routes keep the system consistent\<close>

lemma systemInv_empty: "systemInv emptySystem"
  by (simp add: systemInv_def accountInv_def emptySystem_def history_def gapless_def
      emptyReadModels_def)

lemma gapless_Nil: "gapless v []" by (simp add: gapless_def)

lemma gapless_snoc:
  "gapless v es \<Longrightarrow> version e = Suc (v + length es) \<Longrightarrow> gapless v (es @ [e])"
  by (simp add: gapless_def)

lemma hydrate_None: "hydrate es None = replay es new_BankAccount"
  by (simp add: hydrate_def)

lemma hydrate_aggVersion: "gapless 0 h \<Longrightarrow> aggVersion (hydrate h None) = length h"
  using gapless_aggVersion[of new_BankAccount h "length h"]
  by (simp add: hydrate_None new_BankAccount_def)

lemma hydrate_changes: "changes (hydrate h None) = []"
  by (simp add: hydrate_None changes_replay new_BankAccount_def)

lemma hydrate_snoc: "hydrate (h @ [e]) None = apply_event e (hydrate h None)"
  by (simp add: hydrate_None replay_snoc)

lemma load_hydrate:
  assumes "accountInv aid sys"
  shows "loadBankAccount aid sys = hydrate (history aid (events sys)) None"
proof -
  let ?h = "history aid (events sys)"
  from assms have g: "gapless 0 ?h" by (simp add: accountInv_def Let_def)
  have h0: "getEvents aid 0 (events sys) = ?h"
    using getEvents_gapless[of aid "events sys"] g by (simp add: history_def)
  show ?thesis
  proof (cases "snapshots sys aid")
    case None
    then show ?thesis by (simp add: loadBankAccount_def getSnapshot_def h0)
  next
    case (Some p)
    obtain d k where p: "p = (d, k)" by (cases p)
    from assms Some p have k: "k \<le> length ?h" and d: "d = snapshotData (hydrate (take k ?h) None)"
      by (simp_all add: accountInv_def Let_def)
    have "getEvents aid k (events sys) = filter (\<lambda>e. version e > k) ?h"
      using getEvents_filter[of aid k "events sys"] by (simp add: h0)
    then have "loadBankAccount aid sys
        = hydrate (filter (\<lambda>e. version e > k) ?h) (Some (snapshotData (hydrate (take k ?h) None), k))"
      using Some p d by (simp add: loadBankAccount_def getSnapshot_def)
    then show ?thesis using hydrate_snapshot[OF g k] by simp
  qed
qed

lemma summary_created:
  assumes "account_summaries db (aggregateId e) = None"
    and "eventData e = AccountCreatedData owner b cur"
  shows "account_summaries (project e db) (aggregateId e) = Some (summaryOf (apply_event e new_BankAccount))"
  using assms by (simp add: project_defs summaryOf_def apply_event_def new_BankAccount_def)

lemma summary_next:
  assumes "account_summaries db (aggregateId e) = Some (summaryOf a)"
    and "aggVersion a < version e" and "eventType e \<noteq> AccountCreated"
  shows "account_summaries (project e db) (aggregateId e) = Some (summaryOf (apply_event e a))"
  using assms
  by (cases "eventData e") (simp_all add: project_defs summaryOf_def apply_event_def)

lemma accountId_apply_event:
  "eventType e \<noteq> AccountCreated \<Longrightarrow> accountId (state (apply_event e a)) = accountId (state a)"
  by (cases "eventData e") (simp_all add: apply_event_def eventType_def)

lemma accountId_created:
  "eventData e = AccountCreatedData owner b cur \<Longrightarrow> accountId (state (apply_event e a)) = aggregateId e"
  by (simp add: apply_event_def)

lemma history_snoc_same: "aggregateId e = aid \<Longrightarrow> history aid (rows @ [e]) = history aid rows @ [e]"
  by (simp add: history_def)

lemma history_snoc_other: "aggregateId e \<noteq> aid \<Longrightarrow> history aid (rows @ [e]) = history aid rows"
  by (simp add: history_def)

lemma systemInv_append:
  assumes inv: "systemInv sys"
    and e: "aggregateId e = aid" "version e = Suc (length (history aid (events sys)))"
    and created: "history aid (events sys) = [] \<Longrightarrow> \<exists>owner b cur. eventData e = AccountCreatedData owner b cur"
    and later: "history aid (events sys) \<noteq> [] \<Longrightarrow> eventType e \<noteq> AccountCreated"
    and snap: "snaps' = snapshots sys
               \<or> snaps' = saveSnapshot aid (snapshotData acct) (version e) (snapshots sys)
                 \<and> state acct = state (apply_event e (hydrate (history aid (events sys)) None))"
  shows "systemInv (sys\<lparr> events := events sys @ [e], readModels := project e (readModels sys),
                         snapshots := snaps' \<rparr>)"
  unfolding systemInv_def
proof
  fix aid'
  let ?sys' = "sys\<lparr> events := events sys @ [e], readModels := project e (readModels sys), snapshots := snaps' \<rparr>"
  from inv have old: "accountInv aid' sys" by (simp add: systemInv_def)
  show "accountInv aid' ?sys'"
  proof (cases "aid' = aid")
    case False
    then have h: "history aid' (events sys @ [e]) = history aid' (events sys)"
      using e(1) by (simp add: history_snoc_other)
    have s: "snaps' aid' = snapshots sys aid'"
      using snap False by (auto simp: saveSnapshot_def)
    have r: "account_summaries (project e (readModels sys)) aid' = account_summaries (readModels sys) aid'"
      using False e(1) by (simp add: summaries_frame)
    show ?thesis using old by (simp add: accountInv_def h s r Let_def)
  next
    case True
    let ?h = "history aid (events sys)"
    let ?a = "hydrate ?h None"
    from old True have g: "gapless 0 ?h"
      and os: "case snapshots sys aid of None \<Rightarrow> True
               | Some (d, k) \<Rightarrow> k \<le> length ?h \<and> d = snapshotData (hydrate (take k ?h) None)"
      and oid: "?h \<noteq> [] \<longrightarrow> accountId (state ?a) = aid"
      and orow: "account_summaries (readModels sys) aid = (if ?h = [] then None else Some (summaryOf ?a))"
      by (simp_all add: accountInv_def Let_def)
    have h: "history aid (events sys @ [e]) = ?h @ [e]" using e(1) by (simp add: history_snoc_same)
    have g': "gapless 0 (?h @ [e])" using g e(2) by (simp add: gapless_snoc)
    have a': "hydrate (?h @ [e]) None = apply_event e ?a" by (rule hydrate_snoc)
    have id': "accountId (state (apply_event e ?a)) = aid"
    proof (cases "?h = []")
      case True
      from created[OF True] obtain owner b cur where "eventData e = AccountCreatedData owner b cur" by blast
      then show ?thesis using e(1) by (simp add: accountId_created)
    next
      case False
      then show ?thesis using later[OF False] oid by (simp add: accountId_apply_event)
    qed
    have row': "account_summaries (project e (readModels sys)) aid = Some (summaryOf (apply_event e ?a))"
    proof (cases "?h = []")
      case True
      from created[OF True] obtain owner b cur where d: "eventData e = AccountCreatedData owner b cur" by blast
      have "account_summaries (readModels sys) (aggregateId e) = None" using orow True e(1) by simp
      from summary_created[OF this d] show ?thesis using True e(1) by (simp add: hydrate_None replay_Nil)
    next
      case False
      have "account_summaries (readModels sys) (aggregateId e) = Some (summaryOf ?a)"
        using orow False e(1) by simp
      moreover have "aggVersion ?a < version e" using hydrate_aggVersion[OF g] e(2) by simp
      ultimately show ?thesis using summary_next[OF _ _ later[OF False]] e(1) by simp
    qed
    have s': "case snaps' aid of None \<Rightarrow> True
               | Some (d, k) \<Rightarrow> k \<le> length (?h @ [e]) \<and> d = snapshotData (hydrate (take k (?h @ [e])) None)"
    proof -
      from snap show ?thesis
      proof
        assume "snaps' = snapshots sys"
        then show ?thesis using os by (auto split: option.splits)
      next
        assume n: "snaps' = saveSnapshot aid (snapshotData acct) (version e) (snapshots sys)
                 \<and> state acct = state (apply_event e (hydrate (history aid (events sys)) None))"
        then have "snapshotData acct = snapshotData (apply_event e ?a)" by (simp add: snapshotData_def)
        then show ?thesis using n e(2) a' by (simp add: saveSnapshot_def)
      qed
    qed
    show ?thesis
      unfolding True accountInv_def Let_def
      using g' s' id' row' a' by (auto simp: h split: option.splits)
  qed
qed

lemma sys_events_same: "sys\<lparr> events := events sys \<rparr> = sys"
  by simp

lemma saveAndProject_single:
  "snd (saveAndProject [e] sys) = sys
   \<or> snd (saveAndProject [e] sys)
       = sys\<lparr> events := events sys @ [e], readModels := project e (readModels sys),
              snapshots := snapshots sys \<rparr>"
  using save_cases[of e "events sys"] by auto

lemma saveProjectSnapshot_single:
  "snd (saveProjectSnapshot aid acct [e] sys) = sys
   \<or> snd (saveProjectSnapshot aid acct [e] sys)
       = sys\<lparr> events := events sys @ [e], readModels := project e (readModels sys),
              snapshots := (if eventNumber e mod 50 = 0
                            then saveSnapshot aid (snapshotData acct) (eventNumber e) (snapshots sys)
                            else snapshots sys) \<rparr>"
  using save_cases[of e "events sys"] by auto

lemma systemInv_created:
  assumes inv: "systemInv sys" and v: "getVersion (loadBankAccount aid sys) = 0"
  shows "systemInv (snd (saveAndProject (getUncommittedChanges (create aid owner b cur u t)) sys))"
proof -
  let ?e = "newEvent u aid (AccountCreatedData owner b cur) 1 t"
  from inv have ai: "accountInv aid sys" by (simp add: systemInv_def)
  then have g: "gapless 0 (history aid (events sys))" by (simp add: accountInv_def Let_def)
  have h: "history aid (events sys) = []"
    using v load_hydrate[OF ai] hydrate_aggVersion[OF g] by (simp add: getVersion_def)
  have c: "getUncommittedChanges (create aid owner b cur u t) = [?e]"
    by (simp add: getUncommittedChanges_def create_def Let_def push_def apply_event_def new_BankAccount_def)
  have "systemInv (sys\<lparr> events := events sys @ [?e], readModels := project ?e (readModels sys),
                         snapshots := snapshots sys \<rparr>)"
    by (rule systemInv_append[OF inv, where aid = aid])
       (simp_all add: h newEvent_def)
  then show ?thesis unfolding c using saveAndProject_single[of ?e sys] inv by metis
qed

lemma systemInv_command:
  assumes inv: "systemInv sys" and v: "getVersion (loadBankAccount aid sys) \<noteq> 0"
    and e: "e = newEvent u (accountId (state (loadBankAccount aid sys))) d
                  (aggVersion (loadBankAccount aid sys) + 1) t"
    and d: "typeOfData d \<noteq> AccountCreated"
    and acct: "state acct = state (apply_event e (loadBankAccount aid sys))"
  shows "systemInv (snd (saveProjectSnapshot aid acct [e] sys))"
proof -
  let ?h = "history aid (events sys)"
  from inv have ai: "accountInv aid sys" by (simp add: systemInv_def)
  then have g: "gapless 0 ?h" and oid: "?h \<noteq> [] \<longrightarrow> accountId (state (hydrate ?h None)) = aid"
    by (simp_all add: accountInv_def Let_def)
  note l = load_hydrate[OF ai]
  have n: "?h \<noteq> []" using v l hydrate_aggVersion[OF g] by (auto simp: getVersion_def)
  have ver: "aggVersion (loadBankAccount aid sys) = length ?h" using l hydrate_aggVersion[OF g] by simp
  have ea: "aggregateId e = aid" using e oid n l by (simp add: newEvent_def)
  have ev: "version e = Suc (length ?h)" "eventNumber e = version e" using e ver by (simp_all add: newEvent_def)
  have et: "eventType e \<noteq> AccountCreated" using e d by (simp add: eventType_def newEvent_def)
  have "systemInv (sys\<lparr> events := events sys @ [e], readModels := project e (readModels sys),
          snapshots := (if eventNumber e mod 50 = 0
                        then saveSnapshot aid (snapshotData acct) (eventNumber e) (snapshots sys)
                        else snapshots sys) \<rparr>)"
    by (rule systemInv_append[OF inv ea ev(1), where acct = acct])
       (use n et acct l ev(2) in auto)
  then show ?thesis using saveProjectSnapshot_single[of aid acct e sys] inv by metis
qed

lemma deposit_cases:
  assumes "changes a = []"
  shows "(\<exists>err. deposit amount d tx u t a = (Some err, a))
    \<or> deposit amount d tx u t a = (None, a) \<and> has (processedTransactionIds (state a)) tx
    \<or> (\<exists>e. e = newEvent u (accountId (state a)) (MoneyDepositedData amount d tx) (aggVersion a + 1) t
          \<and> deposit amount d tx u t a = (None, push e (apply_event e a))
          \<and> \<not> has (processedTransactionIds (state a)) tx
          \<and> status (state a) = OPEN \<and> 0 < amount)"
  by (cases "status (state a)") (auto simp: deposit_def Let_def)

lemma withdraw_cases:
  assumes "changes a = []"
  shows "(\<exists>err. withdraw amount d tx u t a = (Some err, a))
    \<or> withdraw amount d tx u t a = (None, a) \<and> has (processedTransactionIds (state a)) tx
    \<or> (\<exists>e. e = newEvent u (accountId (state a)) (MoneyWithdrawnData amount d tx) (aggVersion a + 1) t
          \<and> withdraw amount d tx u t a = (None, push e (apply_event e a))
          \<and> \<not> has (processedTransactionIds (state a)) tx
          \<and> status (state a) = OPEN \<and> 0 < amount \<and> amount \<le> balance (state a))"
  by (cases "status (state a)") (auto simp: withdraw_def Let_def)

lemma close_cases:
  "(\<exists>err. close r u t a = (Some err, a))
    \<or> (\<exists>e. e = newEvent u (accountId (state a)) (AccountClosedData r) (aggVersion a + 1) t
          \<and> close r u t a = (None, push e (apply_event e a)))"
  by (cases "status (state a)") (auto simp: close_def Let_def)

lemma load_changes: "systemInv sys \<Longrightarrow> changes (loadBankAccount aid sys) = []"
  using load_hydrate[of aid sys] by (simp add: systemInv_def hydrate_changes)

lemma changes_push_apply: "changes a = [] \<Longrightarrow> getUncommittedChanges (push e (apply_event e a)) = [e]"
  by (simp add: getUncommittedChanges_def push_def apply_event_def)

lemma state_push: "state (push e a) = state a"
  by (simp add: push_def)

lemma systemInv_postDeposit:
  assumes inv: "systemInv sys"
  shows "systemInv (snd (postDeposit aid amount d tx u t sys))"
proof -
  let ?a = "loadBankAccount aid sys"
  note c = load_changes[OF inv, of aid]
  from deposit_cases[OF c, of amount d tx u t] show ?thesis
  proof (elim disjE exE conjE)
    fix err assume "deposit amount d tx u t ?a = (Some err, ?a)"
    then show ?thesis using inv by (simp add: postDeposit_def Let_def)
  next
    assume "deposit amount d tx u t ?a = (None, ?a)"
    then show ?thesis using inv c by (simp add: postDeposit_def Let_def getUncommittedChanges_def)
  next
    fix e assume e: "e = newEvent u (accountId (state ?a)) (MoneyDepositedData amount d tx) (aggVersion ?a + 1) t"
      and r: "deposit amount d tx u t ?a = (None, push e (apply_event e ?a))"
    show ?thesis
    proof (cases "amount \<le> 0 \<or> tx = [] \<or> getVersion ?a = 0")
      case True
      then show ?thesis using inv by (auto simp: postDeposit_def Let_def)
    next
      case False
      then have v: "getVersion ?a \<noteq> 0" by simp
      have "systemInv (snd (saveProjectSnapshot aid (push e (apply_event e ?a)) [e] sys))"
        by (rule systemInv_command[OF inv v e]) (simp_all add: state_push)
      then show ?thesis using False r c
        by (auto simp: postDeposit_def Let_def changes_push_apply split: prod.splits option.splits)
    qed
  qed
qed

lemma systemInv_postWithdraw:
  assumes inv: "systemInv sys"
  shows "systemInv (snd (postWithdraw aid amount d tx u t sys))"
proof -
  let ?a = "loadBankAccount aid sys"
  note c = load_changes[OF inv, of aid]
  from withdraw_cases[OF c, of amount d tx u t] show ?thesis
  proof (elim disjE exE conjE)
    fix err assume "withdraw amount d tx u t ?a = (Some err, ?a)"
    then show ?thesis using inv by (simp add: postWithdraw_def Let_def)
  next
    assume "withdraw amount d tx u t ?a = (None, ?a)"
    then show ?thesis using inv c by (simp add: postWithdraw_def Let_def getUncommittedChanges_def)
  next
    fix e assume e: "e = newEvent u (accountId (state ?a)) (MoneyWithdrawnData amount d tx) (aggVersion ?a + 1) t"
      and r: "withdraw amount d tx u t ?a = (None, push e (apply_event e ?a))"
    show ?thesis
    proof (cases "amount \<le> 0 \<or> tx = [] \<or> getVersion ?a = 0")
      case True
      then show ?thesis using inv by (auto simp: postWithdraw_def Let_def)
    next
      case False
      then have v: "getVersion ?a \<noteq> 0" by simp
      have "systemInv (snd (saveProjectSnapshot aid (push e (apply_event e ?a)) [e] sys))"
        by (rule systemInv_command[OF inv v e]) (simp_all add: state_push)
      then show ?thesis using False r c
        by (auto simp: postWithdraw_def Let_def changes_push_apply split: prod.splits option.splits)
    qed
  qed
qed

lemma systemInv_postClose:
  assumes inv: "systemInv sys"
  shows "systemInv (snd (postClose aid reason u t sys))"
proof -
  let ?a = "loadBankAccount aid sys"
  note c = load_changes[OF inv, of aid]
  from close_cases[of reason u t ?a] show ?thesis
  proof (elim disjE exE conjE)
    fix err assume "close reason u t ?a = (Some err, ?a)"
    then show ?thesis using inv by (simp add: postClose_def Let_def)
  next
    fix e assume e: "e = newEvent u (accountId (state ?a)) (AccountClosedData reason) (aggVersion ?a + 1) t"
      and r: "close reason u t ?a = (None, push e (apply_event e ?a))"
    show ?thesis
    proof (cases "getVersion ?a = 0")
      case True
      then show ?thesis using inv by (auto simp: postClose_def Let_def)
    next
      case False
      have "systemInv (snd (saveProjectSnapshot aid (push e (apply_event e ?a)) [e] sys))"
        by (rule systemInv_command[OF inv False e]) (simp_all add: state_push)
      then show ?thesis using False r c
        by (auto simp: postClose_def Let_def changes_push_apply split: prod.splits option.splits)
    qed
  qed
qed

lemma systemInv_postAccounts:
  assumes inv: "systemInv sys"
  shows "systemInv (snd (postAccounts aid owner b cur u t sys))"
proof (cases "aid = [] \<or> owner = [] \<or> b < 0 \<or> cur = [] \<or> getVersion (loadBankAccount aid sys) > 0")
  case True
  then show ?thesis using inv by (auto simp: postAccounts_def Let_def)
next
  case False
  then have v: "getVersion (loadBankAccount aid sys) = 0" by simp
  from systemInv_created[OF inv v, of owner b cur u t] show ?thesis
    using False by (auto simp: postAccounts_def Let_def split: prod.splits option.splits)
qed

lemma systemInv_serve: "systemInv sys \<Longrightarrow> systemInv (snd (serve r sys))"
  by (cases r)
     (simp_all add: systemInv_postAccounts systemInv_postDeposit systemInv_postWithdraw systemInv_postClose)

lemma systemInv_serveAll: "systemInv sys \<Longrightarrow> systemInv (serveAll rs sys)"
  by (induction rs arbitrary: sys) (simp_all add: systemInv_serve)

lemma serveAccepted_serveAll: "serveAccepted rs sys = Some sys' \<Longrightarrow> sys' = serveAll rs sys"
  by (induction rs arbitrary: sys) (auto split: prod.splits if_splits)

lemma reachable_inv: "systemInv (serveAll requests emptySystem)"
  by (rule systemInv_serveAll[OF systemInv_empty])

lemma reachable_gapless: "gapless 0 (filter (\<lambda>e. aggregateId e = aid) (events (serveAll requests emptySystem)))"
  using reachable_inv[of requests] by (simp add: systemInv_def accountInv_def Let_def history_def)

lemma reachable_getEvents:
  "getEvents aid 0 (events (serveAll requests emptySystem))
     = filter (\<lambda>e. aggregateId e = aid) (events (serveAll requests emptySystem))"
  by (rule getEvents_gapless[OF reachable_gapless])

lemma reachable_load:
  "loadBankAccount aid (serveAll requests emptySystem)
     = hydrate (getEvents aid 0 (events (serveAll requests emptySystem))) None"
  using load_hydrate[of aid "serveAll requests emptySystem"] reachable_inv[of requests]
  by (simp add: systemInv_def reachable_getEvents history_def)

subsection \<open>C3: snapshot and tail against full replay\<close>

text \<open>
  Claim C3: for the history of an aggregate (the events \<open>getEvents\<close> returns from
  version 0, numbered 1, 2, ... without a gap) and every snapshot point \<open>k\<close> within
  it, hydrating all events from scratch gives the same aggregate (state with balance,
  owner, currency, status and processed transaction identifiers, and version) as
  hydrating the events with version greater than \<open>k\<close> on the snapshot taken after the
  first \<open>k\<close> events, the snapshot holding the processed identifiers as an array.
  Every history that the routes write is without a gap, and what \<open>loadBankAccount\<close>
  returns from the stored snapshot and the tail is the replay of the whole history.
\<close>

theorem snapshot_equivalence:
  "(gapless 0 (getEvents aid 0 rows) \<and> k \<le> length (getEvents aid 0 rows) \<longrightarrow>
      hydrate (getEvents aid 0 rows) None =
      hydrate (getEvents aid k rows)
        (Some (snapshotData (hydrate (take k (getEvents aid 0 rows)) None), k)))
   \<and> gapless 0 (getEvents aid 0 (events (serveAll requests emptySystem)))
   \<and> loadBankAccount aid (serveAll requests emptySystem)
       = hydrate (getEvents aid 0 (events (serveAll requests emptySystem))) None"
  using hydrate_snapshot[of "getEvents aid 0 rows" k] reachable_gapless[of aid requests]
    reachable_load[of aid requests]
  by (simp add: getEvents_filter[of aid k rows] reachable_getEvents)

theorem snapshot_equivalence_witness:
  "gapless 0 (getEvents ''A'' 0 exampleEvents)
   \<and> (2::nat) \<le> length (getEvents ''A'' 0 exampleEvents)
   \<and> hydrate (getEvents ''A'' 0 exampleEvents) None =
       hydrate (getEvents ''A'' 2 exampleEvents)
         (Some (snapshotData (hydrate (take 2 (getEvents ''A'' 0 exampleEvents)) None), 2))
   \<and> getEvents ''A'' 2 exampleEvents = [exampleEvents ! 2]
   \<and> balance (state (hydrate (getEvents ''A'' 0 exampleEvents) None)) = 120"
proof -
  have g: "gapless 0 (getEvents ''A'' 0 exampleEvents)"
    by (simp add: getEvents_def exampleEvents_def newEvent_def gapless_def)
  have l: "(2::nat) \<le> length (getEvents ''A'' 0 exampleEvents)"
    by (simp add: getEvents_def exampleEvents_def newEvent_def)
  have t: "getEvents ''A'' 2 exampleEvents = [exampleEvents ! 2]"
    by (simp add: getEvents_def exampleEvents_def newEvent_def)
  have b: "balance (state (hydrate (getEvents ''A'' 0 exampleEvents) None)) = 120"
    by (simp add: getEvents_def exampleEvents_def newEvent_def hydrate_def replay_def
        apply_event_def new_BankAccount_def)
  show ?thesis
    using snapshot_equivalence[of "''A''" exampleEvents 2, THEN conjunct1] g l t b by simp
qed

section \<open>Properties of the queries\<close>

lemma getBalanceAt_answer:
  "getBalanceAt aid (Some target) sys =
     replayedBalanceAnswer aid target (filter (\<lambda>e. timestamp e \<le> target) (getEvents aid 0 (events sys)))"
  by (simp add: getBalanceAt_def replayedBalanceAnswer_def hydrate_def replay_def Let_def)

lemma filter_account_until:
  "filter (\<lambda>e. timestamp e \<le> target) (filter (\<lambda>e. aggregateId e = aid) rows)
     = filter (\<lambda>e. aggregateId e = aid \<and> timestamp e \<le> target) rows"
  by (simp add: conj_commute)

subsection \<open>C7: the balance at a point in time\<close>

text \<open>
  Claim C7: for a target timestamp, the query takes the account's events
  (\<open>getEvents\<close> from version 0), keeps those with a timestamp of at most the target
  and answers with the balance that replaying exactly these events through
  \<open>BankAccount.apply\<close> gives, starting from the constructor's account; it answers
  not found when no event qualifies. Where the account's rows of the log are numbered
  without a gap, as in every system that the routes have written, these events are
  exactly the rows of the log that belong to the account and have a timestamp of at most
  the target.
\<close>

theorem balance_at_replays_events_until_target:
  "getBalanceAt aid (Some target) sys =
     replayedBalanceAnswer aid target (filter (\<lambda>e. timestamp e \<le> target) (getEvents aid 0 (events sys)))
   \<and> (gapless 0 (filter (\<lambda>e. aggregateId e = aid) (events sys)) \<longrightarrow>
        getBalanceAt aid (Some target) sys =
          replayedBalanceAnswer aid target
            (filter (\<lambda>e. aggregateId e = aid \<and> timestamp e \<le> target) (events sys)))
   \<and> getBalanceAt aid (Some target) (serveAll requests emptySystem) =
        replayedBalanceAnswer aid target
          (filter (\<lambda>e. aggregateId e = aid \<and> timestamp e \<le> target) (events (serveAll requests emptySystem)))"
proof (intro conjI impI)
  show "getBalanceAt aid (Some target) sys =
     replayedBalanceAnswer aid target (filter (\<lambda>e. timestamp e \<le> target) (getEvents aid 0 (events sys)))"
    by (rule getBalanceAt_answer)
next
  assume g: "gapless 0 (filter (\<lambda>e. aggregateId e = aid) (events sys))"
  show "getBalanceAt aid (Some target) sys =
          replayedBalanceAnswer aid target
            (filter (\<lambda>e. aggregateId e = aid \<and> timestamp e \<le> target) (events sys))"
    by (simp only: getBalanceAt_answer getEvents_gapless[OF g] filter_account_until)
next
  show "getBalanceAt aid (Some target) (serveAll requests emptySystem) =
        replayedBalanceAnswer aid target
          (filter (\<lambda>e. aggregateId e = aid \<and> timestamp e \<le> target) (events (serveAll requests emptySystem)))"
    by (simp only: getBalanceAt_answer reachable_getEvents filter_account_until)
qed

theorem balance_at_replays_events_until_target_witness:
  "serveAccepted exampleRequests emptySystem = Some exampleSystem
   \<and> gapless 0 (filter (\<lambda>e. aggregateId e = ''A'') (events exampleSystem))
   \<and> getBalanceAt ''A'' (Some 1500) exampleSystem = Response 200 (BalanceAt ''A'' 100 1500)
   \<and> getBalanceAt ''A'' (Some 2500) exampleSystem = Response 200 (BalanceAt ''A'' 150 2500)
   \<and> getBalanceAt ''A'' (Some 3500) exampleSystem = Response 200 (BalanceAt ''A'' 120 3500)
   \<and> getBalanceAt ''A'' (Some 500) exampleSystem =
       Response 404 (ErrorMessage ''No history found for this account at given time'')"
proof -
  have g: "gapless 0 (filter (\<lambda>e. aggregateId e = ''A'') (events exampleSystem))"
    by (simp add: exampleSystem_events exampleEvents_def newEvent_def gapless_def)
  note r = balance_at_replays_events_until_target[THEN conjunct2, THEN conjunct1, THEN mp, OF g,
      unfolded exampleSystem_events]
  have "getBalanceAt ''A'' (Some 1500) exampleSystem = Response 200 (BalanceAt ''A'' 100 1500)"
    by (simp add: r replayedBalanceAnswer_def exampleEvents_def newEvent_def apply_event_def new_BankAccount_def)
  moreover have "getBalanceAt ''A'' (Some 2500) exampleSystem = Response 200 (BalanceAt ''A'' 150 2500)"
    by (simp add: r replayedBalanceAnswer_def exampleEvents_def newEvent_def apply_event_def new_BankAccount_def)
  moreover have "getBalanceAt ''A'' (Some 3500) exampleSystem = Response 200 (BalanceAt ''A'' 120 3500)"
    by (simp add: r replayedBalanceAnswer_def exampleEvents_def newEvent_def apply_event_def new_BankAccount_def)
  moreover have "getBalanceAt ''A'' (Some 500) exampleSystem =
       Response 404 (ErrorMessage ''No history found for this account at given time'')"
    by (simp add: r replayedBalanceAnswer_def exampleEvents_def newEvent_def)
  ultimately show ?thesis using g exampleSystem_accepted by simp
qed

section \<open>Invariants of an account\<close>

lemma saveProjectSnapshot_single_ok:
  "saveProjectSnapshot aid acct [e] sys = (None, sys') \<Longrightarrow> events sys' = events sys @ [e]"
  using save_cases[of e "events sys"] by auto

lemma saveAndProject_single_ok:
  "saveAndProject [e] sys = (None, sys') \<Longrightarrow> events sys' = events sys @ [e]"
  using save_cases[of e "events sys"] by auto

text \<open>The account that the routes load in a consistent system.\<close>

lemma accepted_existing:
  assumes inv: "systemInv sys"
  shows "getVersion (loadBankAccount aid sys) \<noteq> 0 \<longleftrightarrow> history aid (events sys) \<noteq> []"
proof -
  from inv have ai: "accountInv aid sys" by (simp add: systemInv_def)
  then have g: "gapless 0 (history aid (events sys))" by (simp add: accountInv_def Let_def)
  show ?thesis using load_hydrate[OF ai] hydrate_aggVersion[OF g] by (simp add: getVersion_def)
qed

lemma accountId_load:
  assumes inv: "systemInv sys" and n: "history aid (events sys) \<noteq> []"
  shows "accountId (state (loadBankAccount aid sys)) = aid"
proof -
  from inv have ai: "accountInv aid sys" by (simp add: systemInv_def)
  then show ?thesis using n load_hydrate[OF ai] by (simp add: accountInv_def Let_def)
qed

lemma stateInv_new: "stateInv (state new_BankAccount)"
  by (simp add: stateInv_def new_BankAccount_def)

lemma stateInv_handle:
  assumes "handle c a = (None, a')" "stateInv (state a)"
  shows "stateInv (state a')"
  using assms
  by (cases c)
     (auto simp: stateInv_def deposit_def withdraw_def close_def Let_def push_def apply_event_def
           newEvent_def split: if_splits)

lemma stateInv_create: "0 \<le> b \<Longrightarrow> stateInv (state (create aid owner b cur u t))"
  by (simp add: stateInv_def create_def Let_def push_def apply_event_def newEvent_def new_BankAccount_def)

lemma events_update_cases:
  "sys' = sys \<or> sys' = sys\<lparr> events := events sys @ [e], readModels := rm, snapshots := sn \<rparr> \<Longrightarrow>
   events sys' = events sys \<or> events sys' = events sys @ [e]"
  by auto

lemma outcome_postDeposit:
  assumes inv: "systemInv sys"
  shows "events (snd (postDeposit aid amount d tx u t sys)) = events sys
    \<or> (\<exists>e. aggregateId e = aid
          \<and> handle (Deposit amount d tx u t) (loadBankAccount aid sys)
              = (None, push e (apply_event e (loadBankAccount aid sys)))
          \<and> events (snd (postDeposit aid amount d tx u t sys)) = events sys @ [e])"
proof -
  let ?a = "loadBankAccount aid sys"
  note c = load_changes[OF inv, of aid]
  from deposit_cases[OF c, of amount d tx u t] show ?thesis
  proof (elim disjE exE conjE)
    fix err assume "deposit amount d tx u t ?a = (Some err, ?a)"
    then show ?thesis by (simp add: postDeposit_def Let_def)
  next
    assume "deposit amount d tx u t ?a = (None, ?a)"
    then show ?thesis using c by (simp add: postDeposit_def Let_def getUncommittedChanges_def)
  next
    fix e assume e: "e = newEvent u (accountId (state ?a)) (MoneyDepositedData amount d tx) (aggVersion ?a + 1) t"
      and r: "deposit amount d tx u t ?a = (None, push e (apply_event e ?a))"
    show ?thesis
    proof (cases "amount \<le> 0 \<or> tx = [] \<or> getVersion ?a = 0")
      case True
      then show ?thesis by (auto simp: postDeposit_def Let_def)
    next
      case False
      then have n: "history aid (events sys) \<noteq> []" using accepted_existing[OF inv, of aid] by simp
      have ea: "aggregateId e = aid" using e accountId_load[OF inv n] by (simp add: newEvent_def)
      have p: "snd (postDeposit aid amount d tx u t sys)
             = snd (saveProjectSnapshot aid (push e (apply_event e ?a)) [e] sys)"
        using False r c
        by (auto simp: postDeposit_def Let_def changes_push_apply split: prod.splits option.splits)
      from saveProjectSnapshot_single[of aid "push e (apply_event e ?a)" e sys]
      have "events (snd (postDeposit aid amount d tx u t sys)) = events sys
          \<or> events (snd (postDeposit aid amount d tx u t sys)) = events sys @ [e]"
        unfolding p by (rule events_update_cases)
      then show ?thesis using ea r by auto
    qed
  qed
qed

lemma outcome_postWithdraw:
  assumes inv: "systemInv sys"
  shows "events (snd (postWithdraw aid amount d tx u t sys)) = events sys
    \<or> (\<exists>e. aggregateId e = aid
          \<and> handle (Withdraw amount d tx u t) (loadBankAccount aid sys)
              = (None, push e (apply_event e (loadBankAccount aid sys)))
          \<and> events (snd (postWithdraw aid amount d tx u t sys)) = events sys @ [e])"
proof -
  let ?a = "loadBankAccount aid sys"
  note c = load_changes[OF inv, of aid]
  from withdraw_cases[OF c, of amount d tx u t] show ?thesis
  proof (elim disjE exE conjE)
    fix err assume "withdraw amount d tx u t ?a = (Some err, ?a)"
    then show ?thesis by (simp add: postWithdraw_def Let_def)
  next
    assume "withdraw amount d tx u t ?a = (None, ?a)"
    then show ?thesis using c by (simp add: postWithdraw_def Let_def getUncommittedChanges_def)
  next
    fix e assume e: "e = newEvent u (accountId (state ?a)) (MoneyWithdrawnData amount d tx) (aggVersion ?a + 1) t"
      and r: "withdraw amount d tx u t ?a = (None, push e (apply_event e ?a))"
    show ?thesis
    proof (cases "amount \<le> 0 \<or> tx = [] \<or> getVersion ?a = 0")
      case True
      then show ?thesis by (auto simp: postWithdraw_def Let_def)
    next
      case False
      then have n: "history aid (events sys) \<noteq> []" using accepted_existing[OF inv, of aid] by simp
      have ea: "aggregateId e = aid" using e accountId_load[OF inv n] by (simp add: newEvent_def)
      have p: "snd (postWithdraw aid amount d tx u t sys)
             = snd (saveProjectSnapshot aid (push e (apply_event e ?a)) [e] sys)"
        using False r c
        by (auto simp: postWithdraw_def Let_def changes_push_apply split: prod.splits option.splits)
      from saveProjectSnapshot_single[of aid "push e (apply_event e ?a)" e sys]
      have "events (snd (postWithdraw aid amount d tx u t sys)) = events sys
          \<or> events (snd (postWithdraw aid amount d tx u t sys)) = events sys @ [e]"
        unfolding p by (rule events_update_cases)
      then show ?thesis using ea r by auto
    qed
  qed
qed

lemma outcome_postClose:
  assumes inv: "systemInv sys"
  shows "events (snd (postClose aid reason u t sys)) = events sys
    \<or> (\<exists>e. aggregateId e = aid
          \<and> handle (Close reason u t) (loadBankAccount aid sys)
              = (None, push e (apply_event e (loadBankAccount aid sys)))
          \<and> events (snd (postClose aid reason u t sys)) = events sys @ [e])"
proof -
  let ?a = "loadBankAccount aid sys"
  note c = load_changes[OF inv, of aid]
  from close_cases[of reason u t ?a] show ?thesis
  proof (elim disjE exE conjE)
    fix err assume "close reason u t ?a = (Some err, ?a)"
    then show ?thesis by (simp add: postClose_def Let_def)
  next
    fix e assume e: "e = newEvent u (accountId (state ?a)) (AccountClosedData reason) (aggVersion ?a + 1) t"
      and r: "close reason u t ?a = (None, push e (apply_event e ?a))"
    show ?thesis
    proof (cases "getVersion ?a = 0")
      case True
      then show ?thesis by (auto simp: postClose_def Let_def)
    next
      case False
      then have n: "history aid (events sys) \<noteq> []" using accepted_existing[OF inv, of aid] by simp
      have ea: "aggregateId e = aid" using e accountId_load[OF inv n] by (simp add: newEvent_def)
      have p: "snd (postClose aid reason u t sys)
             = snd (saveProjectSnapshot aid (push e (apply_event e ?a)) [e] sys)"
        using False r c
        by (auto simp: postClose_def Let_def changes_push_apply split: prod.splits option.splits)
      from saveProjectSnapshot_single[of aid "push e (apply_event e ?a)" e sys]
      have "events (snd (postClose aid reason u t sys)) = events sys
          \<or> events (snd (postClose aid reason u t sys)) = events sys @ [e]"
        unfolding p by (rule events_update_cases)
      then show ?thesis using ea r by auto
    qed
  qed
qed

lemma outcome_postAccounts:
  assumes inv: "systemInv sys"
  shows "events (snd (postAccounts aid owner b cur u t sys)) = events sys
    \<or> (0 \<le> b \<and> history aid (events sys) = []
        \<and> events (snd (postAccounts aid owner b cur u t sys))
            = events sys @ [newEvent u aid (AccountCreatedData owner b cur) 1 t])"
proof (cases "aid = [] \<or> owner = [] \<or> b < 0 \<or> cur = [] \<or> getVersion (loadBankAccount aid sys) > 0")
  case True
  then show ?thesis by (auto simp: postAccounts_def Let_def)
next
  case False
  let ?e = "newEvent u aid (AccountCreatedData owner b cur) 1 t"
  from False have h: "history aid (events sys) = []" using accepted_existing[OF inv, of aid] by simp
  have c: "getUncommittedChanges (create aid owner b cur u t) = [?e]"
    by (simp add: getUncommittedChanges_def create_def Let_def push_def apply_event_def new_BankAccount_def)
  have p: "snd (postAccounts aid owner b cur u t sys) = snd (saveAndProject [?e] sys)"
    using False by (auto simp: postAccounts_def Let_def c split: prod.splits option.splits)
  from saveAndProject_single[of ?e sys]
  have "events (snd (postAccounts aid owner b cur u t sys)) = events sys
      \<or> events (snd (postAccounts aid owner b cur u t sys)) = events sys @ [?e]"
    unfolding p by (rule events_update_cases)
  then show ?thesis using False h by auto
qed

lemma stateInv_serve:
  assumes inv: "systemInv sys"
    and st: "\<forall>aid. stateInv (state (hydrate (history aid (events sys)) None))"
  shows "stateInv (state (hydrate (history aid (events (snd (serve r sys)))) None))"
proof -
  have app: "stateInv (state (hydrate (history aid (events sys @ [e])) None))"
    if "handle c (loadBankAccount (aggregateId e) sys)
          = (None, push e (apply_event e (loadBankAccount (aggregateId e) sys)))" for e c
  proof (cases "aggregateId e = aid")
    case False
    then show ?thesis using st by (simp add: history_snoc_other)
  next
    case True
    from inv have ai: "accountInv aid sys" by (simp add: systemInv_def)
    note l = load_hydrate[OF ai]
    from stateInv_handle[OF that] st True l
    have "stateInv (state (apply_event e (hydrate (history aid (events sys)) None)))"
      by (simp add: state_push)
    then show ?thesis using True by (simp add: history_snoc_same hydrate_snoc)
  qed
  show ?thesis
  proof (cases r)
    case (CreateAccount aid' owner b cur u t)
    from outcome_postAccounts[OF inv, of aid' owner b cur u t] show ?thesis
    proof
      assume "events (snd (postAccounts aid' owner b cur u t sys)) = events sys"
      then show ?thesis using st by (simp add: CreateAccount)
    next
      assume a: "0 \<le> b \<and> history aid' (events sys) = []
        \<and> events (snd (postAccounts aid' owner b cur u t sys))
            = events sys @ [newEvent u aid' (AccountCreatedData owner b cur) 1 t]"
      show ?thesis
      proof (cases "aid' = aid")
        case False
        then show ?thesis using a st by (simp add: CreateAccount history_def newEvent_def)
      next
        case True
        then show ?thesis using a
          by (simp add: CreateAccount history_def newEvent_def hydrate_None replay_def
              apply_event_def new_BankAccount_def stateInv_def)
      qed
    qed
  next
    case (DepositMoney aid' amount d tx u t)
    from outcome_postDeposit[OF inv, of aid' amount d tx u t] show ?thesis
    proof (elim disjE exE conjE)
      assume "events (snd (postDeposit aid' amount d tx u t sys)) = events sys"
      then show ?thesis using st by (simp add: DepositMoney)
    next
      fix e
      assume "aggregateId e = aid'"
        and "handle (Deposit amount d tx u t) (loadBankAccount aid' sys)
              = (None, push e (apply_event e (loadBankAccount aid' sys)))"
        and "events (snd (postDeposit aid' amount d tx u t sys)) = events sys @ [e]"
      then show ?thesis using app[of "Deposit amount d tx u t" e] by (simp add: DepositMoney del: handle.simps)
    qed
  next
    case (WithdrawMoney aid' amount d tx u t)
    from outcome_postWithdraw[OF inv, of aid' amount d tx u t] show ?thesis
    proof (elim disjE exE conjE)
      assume "events (snd (postWithdraw aid' amount d tx u t sys)) = events sys"
      then show ?thesis using st by (simp add: WithdrawMoney)
    next
      fix e
      assume "aggregateId e = aid'"
        and "handle (Withdraw amount d tx u t) (loadBankAccount aid' sys)
              = (None, push e (apply_event e (loadBankAccount aid' sys)))"
        and "events (snd (postWithdraw aid' amount d tx u t sys)) = events sys @ [e]"
      then show ?thesis using app[of "Withdraw amount d tx u t" e] by (simp add: WithdrawMoney del: handle.simps)
    qed
  next
    case (CloseAccount aid' reason u t)
    from outcome_postClose[OF inv, of aid' reason u t] show ?thesis
    proof (elim disjE exE conjE)
      assume "events (snd (postClose aid' reason u t sys)) = events sys"
      then show ?thesis using st by (simp add: CloseAccount)
    next
      fix e
      assume "aggregateId e = aid'"
        and "handle (Close reason u t) (loadBankAccount aid' sys)
              = (None, push e (apply_event e (loadBankAccount aid' sys)))"
        and "events (snd (postClose aid' reason u t sys)) = events sys @ [e]"
      then show ?thesis using app[of "Close reason u t" e] by (simp add: CloseAccount del: handle.simps)
    qed
  qed
qed

lemma stateInv_serveAll:
  assumes "systemInv sys" "\<forall>aid. stateInv (state (hydrate (history aid (events sys)) None))"
  shows "\<forall>aid. stateInv (state (hydrate (history aid (events (serveAll rs sys))) None))"
  using assms
proof (induction rs arbitrary: sys)
  case Nil then show ?case by simp
next
  case (Cons r rs)
  have "systemInv (snd (serve r sys))" by (rule systemInv_serve[OF Cons.prems(1)])
  moreover have "\<forall>aid. stateInv (state (hydrate (history aid (events (snd (serve r sys)))) None))"
    using stateInv_serve[OF Cons.prems] by blast
  ultimately show ?case using Cons.IH by simp
qed

lemma reachable_stateInv: "stateInv (state (loadBankAccount aid (serveAll requests emptySystem)))"
proof -
  have "\<forall>aid. stateInv (state (hydrate (history aid (events emptySystem)) None))"
    by (simp add: emptySystem_def history_def hydrate_None replay_def stateInv_new)
  from stateInv_serveAll[OF systemInv_empty this, of requests]
  show ?thesis using load_hydrate[of aid "serveAll requests emptySystem"] reachable_inv[of requests]
    by (simp add: systemInv_def)
qed

lemma exampleSystem_balance: "balance (state (loadBankAccount ''A'' exampleSystem)) = 120"
  by (simp add: exampleSystem_def exampleRequests_def emptySystem_def route_defs aggregate_defs)

subsection \<open>C8: closing an account\<close>

text \<open>
  Claim C8: \<open>close\<close> succeeds only on an OPEN account whose balance is exactly zero.
  Closing an account that is already closed fails with AlreadyClosed, closing with a
  balance other than zero fails with NonZeroBalance, and a failed \<open>close\<close> produces no
  event and leaves the aggregate as it was. The CLOSED check comes first in the code, so
  on an OPEN account a non-zero balance gives NonZeroBalance; an account that commands
  have produced from a creation, and an account that is loaded in a system that the
  routes have written, is never CLOSED with a non-zero balance, so there a non-zero
  balance always gives NonZeroBalance.
\<close>

theorem close_requires_open_and_zero:
  "(fst (close r u t a) = None \<longleftrightarrow> status (state a) = OPEN \<and> balance (state a) = 0)
   \<and> (status (state a) = CLOSED \<longrightarrow> close r u t a = (Some AlreadyClosed, a))
   \<and> (status (state a) = OPEN \<and> balance (state a) \<noteq> 0 \<longrightarrow> close r u t a = (Some NonZeroBalance, a))
   \<and> (accepted cs (create aid owner b0 cur u0 t0) = Some a \<and> balance (state a) \<noteq> 0 \<longrightarrow>
        close r u t a = (Some NonZeroBalance, a))
   \<and> (a = loadBankAccount aid' (serveAll requests emptySystem) \<and> balance (state a) \<noteq> 0 \<longrightarrow>
        close r u t a = (Some NonZeroBalance, a))"
proof -
  have 1: "close r u t a = (Some NonZeroBalance, a)"
    if "accepted cs (create aid owner b0 cur u0 t0) = Some a" and "balance (state a) \<noteq> 0"
  proof -
    from reachable_closed_zero[OF that(1)] that(2) have "status (state a) = OPEN"
      by (cases "status (state a)") auto
    then show ?thesis using that(2) by (rule close_nonzero)
  qed
  have 2: "close r u t a = (Some NonZeroBalance, a)"
    if "a = loadBankAccount aid' (serveAll requests emptySystem)" and "balance (state a) \<noteq> 0"
  proof -
    from reachable_stateInv[of aid' requests] that have "status (state a) = OPEN"
      by (cases "status (state a)") (auto simp: stateInv_def)
    then show ?thesis using that(2) by (rule close_nonzero)
  qed
  show ?thesis
    using 1 2 close_ok_iff[of r u t a] close_CLOSED[of a r u t] close_nonzero[of a r u t] by blast
qed

theorem close_requires_open_and_zero_witness:
  "accepted [Deposit 10 None ''t1'' ''u2'' 20] (create ''acc'' ''Ann'' 0 ''EUR'' ''u1'' 10) = Some openAccount
   \<and> status (state openAccount) = OPEN \<and> balance (state openAccount) = 10
   \<and> close None ''u3'' 30 openAccount = (Some NonZeroBalance, openAccount)
   \<and> status (state closedAccount) = CLOSED
   \<and> close None ''u5'' 50 closedAccount = (Some AlreadyClosed, closedAccount)
   \<and> fst (close None ''u2'' 20 (create ''acc'' ''Ann'' 0 ''EUR'' ''u1'' 10)) = None
   \<and> balance (state (loadBankAccount ''A'' exampleSystem)) = 120
   \<and> close None ''u9'' 9000 (loadBankAccount ''A'' exampleSystem)
       = (Some NonZeroBalance, loadBankAccount ''A'' exampleSystem)"
proof -
  note a = openAccount_accepted and b = openAccount_state(1,2) and c = closedAccount_state(1)
  from close_requires_open_and_zero[of None "''u3''" 30 openAccount "[Deposit 10 None ''t1'' ''u2'' 20]"
      "''acc''" "''Ann''" 0 "''EUR''" "''u1''" 10] a b
  have d: "close None ''u3'' 30 openAccount = (Some NonZeroBalance, openAccount)" by simp
  from close_requires_open_and_zero[of None "''u5''" 50 closedAccount "[]"
      "''acc''" "''Ann''" 0 "''EUR''" "''u1''" 10] c
  have e: "close None ''u5'' 50 closedAccount = (Some AlreadyClosed, closedAccount)" by simp
  from close_requires_open_and_zero[of None "''u2''" 20 "create ''acc'' ''Ann'' 0 ''EUR'' ''u1'' 10" "[]"
      "''acc''" "''Ann''" 0 "''EUR''" "''u1''" 10]
  have f: "fst (close None ''u2'' 20 (create ''acc'' ''Ann'' 0 ''EUR'' ''u1'' 10)) = None"
    by (simp add: create_open create_balance)
  from close_requires_open_and_zero[of None "''u9''" 9000 "loadBankAccount ''A'' exampleSystem" "[]"
      "''acc''" "''Ann''" 0 "''EUR''" "''u1''" 10 "''A''" exampleRequests] exampleSystem_balance
  have g: "close None ''u9'' 9000 (loadBankAccount ''A'' exampleSystem)
       = (Some NonZeroBalance, loadBankAccount ''A'' exampleSystem)"
    by (simp add: exampleSystem_def)
  show ?thesis using a b c d e f g exampleSystem_balance by simp
qed

section \<open>Properties of the numbers\<close>

lemma roundHalfEven_cases:
  "(roundHalfEven x = \<lfloor>x\<rfloor> \<and> x - of_int \<lfloor>x\<rfloor> \<le> 1 / 2)
   \<or> (roundHalfEven x = \<lfloor>x\<rfloor> + 1 \<and> 1 / 2 \<le> x - of_int \<lfloor>x\<rfloor>)"
proof (cases "x - of_int \<lfloor>x\<rfloor> < 1 / 2")
  case True
  then have "roundHalfEven x = \<lfloor>x\<rfloor>" by (simp only: roundHalfEven_def Let_def if_True)
  then show ?thesis using True by simp
next
  case False
  note nl = this
  show ?thesis
  proof (cases "1 / 2 < x - of_int \<lfloor>x\<rfloor>")
    case True
    then have "roundHalfEven x = \<lfloor>x\<rfloor> + 1"
      using nl by (simp only: roundHalfEven_def Let_def if_True if_False)
    then show ?thesis using True by simp
  next
    case False
    then have eq: "x - of_int \<lfloor>x\<rfloor> = 1 / 2" using nl by linarith
    have "roundHalfEven x = (if even \<lfloor>x\<rfloor> then \<lfloor>x\<rfloor> else \<lfloor>x\<rfloor> + 1)"
      using nl False by (simp only: roundHalfEven_def Let_def if_True if_False)
    then show ?thesis using eq by (cases "even \<lfloor>x\<rfloor>") simp_all
  qed
qed

lemma roundHalfEven_nearest: "\<bar>of_int (roundHalfEven x) - x\<bar> \<le> \<bar>of_int k - x\<bar>"
proof -
  define f where "f = \<lfloor>x\<rfloor>"
  have f: "of_int f \<le> x" "x < of_int f + 1"
    unfolding f_def by linarith+
  have "k \<le> f \<or> f + 1 \<le> k" by linarith
  then have kk: "(of_int k :: rat) \<le> of_int f \<or> (of_int f :: rat) + 1 \<le> of_int k"
    by (metis of_int_le_iff of_int_add of_int_1)
  from roundHalfEven_cases[of x]
  have "(of_int (roundHalfEven x) = (of_int f :: rat) \<and> x - of_int f \<le> 1 / 2)
        \<or> (of_int (roundHalfEven x) = (of_int f :: rat) + 1 \<and> 1 / 2 \<le> x - of_int f)"
    unfolding f_def by auto
  then show ?thesis
  proof (elim disjE conjE)
    assume a: "of_int (roundHalfEven x) = (of_int f :: rat)" "x - of_int f \<le> 1 / 2"
    from kk show ?thesis
    proof
      assume "(of_int k :: rat) \<le> of_int f"
      then show ?thesis using a f by linarith
    next
      assume "(of_int f :: rat) + 1 \<le> of_int k"
      then show ?thesis using a f by linarith
    qed
  next
    assume a: "of_int (roundHalfEven x) = (of_int f :: rat) + 1" "1 / 2 \<le> x - of_int f"
    from kk show ?thesis
    proof
      assume "(of_int k :: rat) \<le> of_int f"
      then show ?thesis using a f by linarith
    next
      assume "(of_int f :: rat) + 1 \<le> of_int k"
      then show ?thesis using a f by linarith
    qed
  qed
qed

lemma roundHalfEven_of_int [simp]: "roundHalfEven (of_int k) = k"
  by (simp add: roundHalfEven_def)

lemma roundHalfEven_le:
  assumes "x < of_int k + 1 / 2"
  shows "roundHalfEven x \<le> k"
proof -
  define f where "f = \<lfloor>x\<rfloor>"
  have f: "of_int f \<le> x" "x < of_int f + 1"
    unfolding f_def by linarith+
  have "f \<le> k" using assms f(1) by (simp add: f_def floor_le_iff)
  then consider "f + 1 \<le> k" | "f = k" by linarith
  then show ?thesis
  proof cases
    case 1
    then show ?thesis unfolding roundHalfEven_def Let_def f_def[symmetric] by auto
  next
    case 2
    then have "x - of_int f < 1 / 2" using assms by simp
    then show ?thesis unfolding roundHalfEven_def Let_def f_def[symmetric] using 2 by auto
  qed
qed

lemma roundHalfEven_ge:
  assumes "of_int k - 1 / 2 < x"
  shows "k \<le> roundHalfEven x"
proof -
  define f where "f = \<lfloor>x\<rfloor>"
  have f: "of_int f \<le> x" "x < of_int f + 1"
    unfolding f_def by linarith+
  have "(of_int k :: rat) < of_int f + 3 / 2" using assms f(2) by linarith
  then have "(of_int k :: rat) < of_int (f + 2)" by simp
  then have "k < f + 2" using of_int_less_iff by blast
  then consider "k \<le> f" | "k = f + 1" by linarith
  then show ?thesis
  proof cases
    case 1
    then show ?thesis unfolding roundHalfEven_def Let_def f_def[symmetric] by auto
  next
    case 2
    then have "1 / 2 < x - of_int f" using assms by simp
    then show ?thesis unfolding roundHalfEven_def Let_def f_def[symmetric] using 2 by auto
  qed
qed

lemma spacingBelow_spec:
  assumes "s = 2 powi e" and "a < 2 ^ 53 * s"
  shows "\<exists>e'. e - int n \<le> e' \<and> e' \<le> e \<and> spacingBelow n a s = 2 powi e'
            \<and> a < 2 ^ 53 * 2 powi e' \<and> (e - int n < e' \<longrightarrow> 2 ^ 52 * 2 powi e' \<le> a)"
  using assms
proof (induction n arbitrary: s e)
  case 0
  then show ?case by auto
next
  case (Suc n)
  show ?case
  proof (cases "a < 2 ^ 52 * s")
    case True
    have s2: "s / 2 = 2 powi (e - 1)"
      using Suc.prems(1) by (simp add: power_int_diff)
    have "a < 2 ^ 53 * (s / 2)" using True by simp
    from Suc.IH[OF s2 this] obtain e' where
      "e - 1 - int n \<le> e'" "e' \<le> e - 1" "spacingBelow n a (s / 2) = 2 powi e'"
      "a < 2 ^ 53 * 2 powi e'" "e - 1 - int n < e' \<longrightarrow> 2 ^ 52 * 2 powi e' \<le> a"
      by blast
    then show ?thesis using True by (intro exI[of _ e']) auto
  next
    case False
    then show ?thesis using Suc.prems by (intro exI[of _ e]) auto
  qed
qed

lemma spacingAbove_spec:
  assumes "s = 2 powi e" and "2 ^ 52 * s \<le> a"
  shows "\<exists>e'. e \<le> e' \<and> e' \<le> e + int n \<and> spacingAbove n a s = 2 powi e'
            \<and> 2 ^ 52 * 2 powi e' \<le> a \<and> (e' < e + int n \<longrightarrow> a < 2 ^ 53 * 2 powi e')"
  using assms
proof (induction n arbitrary: s e)
  case 0
  then show ?case by auto
next
  case (Suc n)
  show ?case
  proof (cases "2 ^ 53 * s \<le> a")
    case True
    have s2: "2 * s = 2 powi (e + 1)"
      using Suc.prems(1) by (simp add: power_int_add)
    have "2 ^ 52 * (2 * s) \<le> a" using True by simp
    from Suc.IH[OF s2 this] obtain e' where
      "e + 1 \<le> e'" "e' \<le> e + 1 + int n" "spacingAbove n a (2 * s) = 2 powi e'"
      "2 ^ 52 * 2 powi e' \<le> a" "e' < e + 1 + int n \<longrightarrow> a < 2 ^ 53 * 2 powi e'"
      by blast
    then show ?thesis using True by (intro exI[of _ e']) auto
  next
    case False
    then show ?thesis using Suc.prems by (intro exI[of _ e]) auto
  qed
qed

lemma spacing_spec:
  assumes "0 \<le> a" and "a < 2 ^ 1024"
  shows "\<exists>e. - 1074 \<le> e \<and> e \<le> 971 \<and> spacing a = 2 powi e
           \<and> a < 2 ^ 53 * 2 powi e \<and> (- 1074 < e \<longrightarrow> 2 ^ 52 * 2 powi e \<le> a)"
proof (cases "a < 2 ^ 53")
  case True
  have "(1::rat) = 2 powi 0" by simp
  from spacingBelow_spec[OF this, of a 1074] True obtain e' where
    "0 - int 1074 \<le> e'" "e' \<le> 0" "spacingBelow 1074 a 1 = 2 powi e'"
    "a < 2 ^ 53 * 2 powi e'" "0 - int 1074 < e' \<longrightarrow> 2 ^ 52 * 2 powi e' \<le> a"
    by auto
  then show ?thesis using True by (intro exI[of _ e']) (auto simp: spacing_def)
next
  case False
  have one: "(1::rat) = 2 powi 0" by simp
  have "2 ^ 52 * 1 \<le> a" using False by simp
  from spacingAbove_spec[OF one this, of 971] obtain e' where e':
    "0 \<le> e'" "e' \<le> 0 + int 971" "spacingAbove 971 a 1 = 2 powi e'"
    "2 ^ 52 * 2 powi e' \<le> a" "e' < 0 + int 971 \<longrightarrow> a < 2 ^ 53 * 2 powi e'"
    by auto
  have "a < 2 ^ 53 * 2 powi e'"
  proof (cases "e' < 971")
    case True
    then show ?thesis using e'(5) by simp
  next
    case False
    then have "e' = 971" using e'(2) by simp
    then show ?thesis using assms(2) by simp
  qed
  then show ?thesis using False e' by (intro exI[of _ e']) (auto simp: spacing_def)
qed


lemma abs_grid:
  fixes s q :: rat
  assumes "0 < s"
  shows "\<bar>of_int k * s - q\<bar> = s * \<bar>of_int k - q / s\<bar>"
proof -
  have "of_int k * s - q = s * (of_int k - q / s)"
    using assms by (simp add: field_simps)
  then show ?thesis using assms by (simp add: abs_mult)
qed

lemma abs_of_int_le:
  assumes "\<bar>m\<bar> \<le> k"
  shows "\<bar>(of_int m :: rat)\<bar> \<le> of_int k"
  using assms by (metis of_int_abs of_int_le_iff)

lemma round_form:
  assumes "\<bar>q\<bar> < 2 ^ 1024 - 2 ^ 970"
  shows "\<exists>m e. roundToDouble q = Finite (of_int m * 2 powi e)
           \<and> m = roundHalfEven (q / 2 powi e)
           \<and> \<bar>m\<bar> \<le> 2 ^ 53 \<and> - 1074 \<le> e \<and> e \<le> 971
           \<and> \<bar>of_int m * 2 powi e :: rat\<bar> \<le> 2 ^ 1024 - 2 ^ 971
           \<and> \<bar>q\<bar> < 2 ^ 53 * 2 powi e
           \<and> (- 1074 < e \<longrightarrow> 2 ^ 52 * 2 powi e \<le> \<bar>q\<bar>)"
proof -
  have "\<bar>q\<bar> < 2 ^ 1024" using assms by simp
  from spacing_spec[OF abs_ge_zero this] obtain e where e:
    "- 1074 \<le> e" "e \<le> 971" "spacing \<bar>q\<bar> = 2 powi e"
    "\<bar>q\<bar> < 2 ^ 53 * 2 powi e" "- 1074 < e \<longrightarrow> 2 ^ 52 * 2 powi e \<le> \<bar>q\<bar>"
    by blast
  define s :: rat where "s = 2 powi e"
  have s: "0 < s" by (simp add: s_def)
  define x where "x = q / s"
  define m where "m = roundHalfEven x"
  have ax: "\<bar>x\<bar> < 2 ^ 53"
    using e(4) s unfolding x_def s_def[symmetric] by (simp add: abs_divide pos_divide_less_eq)
  have u: "x < of_int (2 ^ 53) + 1 / 2" and l: "of_int (- (2 ^ 53)) - 1 / 2 < x"
    using ax by (simp_all add: abs_less_iff)
  have "m \<le> 2 ^ 53" "- (2 ^ 53) \<le> m"
    unfolding m_def by (rule roundHalfEven_le[OF u], rule roundHalfEven_ge[OF l])
  then have m: "\<bar>m\<bar> \<le> 2 ^ 53" by simp
  have r: "roundToDouble q = Finite (of_int m * s)"
    using assms by (simp add: roundToDouble_def e(3) Let_def m_def x_def s_def)
  have top: "\<bar>of_int m * s\<bar> \<le> 2 ^ 1024 - 2 ^ 971"
  proof (cases "e < 971")
    case True
    then have "s \<le> 2 powi 970" unfolding s_def by (intro power_int_increasing) simp_all
    then have s970: "s \<le> 2 ^ 970" by simp
    have "\<bar>(of_int m :: rat)\<bar> \<le> 2 ^ 53"
      using abs_of_int_le[OF m] by simp
    then have "\<bar>of_int m * s\<bar> \<le> 2 ^ 53 * 2 ^ 970"
      unfolding abs_mult using s s970 by (intro mult_mono) simp_all
    then show ?thesis by simp
  next
    case False
    then have e971: "e = 971" using e(2) by simp
    then have s971: "s = 2 ^ 971" by (simp add: s_def)
    have "\<bar>x\<bar> < 2 ^ 53 - 1 / 2"
      using assms unfolding x_def s971 by (simp add: abs_divide pos_divide_less_eq)
    then have u': "x < of_int (2 ^ 53 - 1) + 1 / 2" and l': "of_int (- (2 ^ 53 - 1)) - 1 / 2 < x"
      by (simp_all add: abs_less_iff)
    have "m \<le> 2 ^ 53 - 1" "- (2 ^ 53 - 1) \<le> m"
      unfolding m_def by (rule roundHalfEven_le[OF u'], rule roundHalfEven_ge[OF l'])
    then have "\<bar>m\<bar> \<le> 2 ^ 53 - 1" by simp
    from abs_of_int_le[OF this] have "\<bar>(of_int m :: rat)\<bar> \<le> 2 ^ 53 - 1"
      by simp
    then have "\<bar>of_int m * s\<bar> \<le> (2 ^ 53 - 1) * 2 ^ 971"
      unfolding abs_mult s971 by (intro mult_mono) simp_all
    then show ?thesis by simp
  qed
  have "roundToDouble q = Finite (of_int m * 2 powi e) \<and> m = roundHalfEven (q / 2 powi e)"
    using r by (simp add: m_def x_def s_def)
  moreover have "\<bar>of_int m * 2 powi e :: rat\<bar> \<le> 2 ^ 1024 - 2 ^ 971"
    using top by (simp only: s_def)
  ultimately show ?thesis
    using m e(1,2,4,5) by blast
qed

lemma round_nearest:
  assumes q: "\<bar>q\<bar> < 2 ^ 1024 - 2 ^ 970"
    and d: "d = of_int md * 2 powi ed" "\<bar>md\<bar> \<le> 2 ^ 53" "- 1074 \<le> ed"
  shows "\<exists>r. roundToDouble q = Finite r \<and> \<bar>r - q\<bar> \<le> \<bar>d - q\<bar>"
proof -
  from round_form[OF q] obtain m e where f:
    "roundToDouble q = Finite (of_int m * 2 powi e)" "m = roundHalfEven (q / 2 powi e)"
    "- 1074 \<le> e" "- 1074 < e \<longrightarrow> 2 ^ 52 * 2 powi e \<le> \<bar>q\<bar>"
    by blast
  define s :: rat where "s = 2 powi e"
  have s: "0 < s" by (simp add: s_def)
  have near: "\<bar>of_int m * s - q\<bar> \<le> \<bar>of_int k * s - q\<bar>" for k
    unfolding abs_grid[OF s] f(2) s_def[symmetric]
    using roundHalfEven_nearest[of "q / s" k] s by simp
  have "\<bar>of_int m * s - q\<bar> \<le> \<bar>d - q\<bar>"
  proof (cases "e \<le> ed")
    case True
    then have "(2::rat) powi ed = 2 powi (ed - e) * 2 powi e"
      by (simp add: power_int_add[symmetric])
    also have "(2::rat) powi (ed - e) = 2 ^ nat (ed - e)"
      using True by (simp add: power_int_nonneg_exp)
    finally have dk: "d = of_int (md * 2 ^ nat (ed - e)) * s"
      unfolding d(1) s_def by simp
    show ?thesis unfolding dk by (rule near)
  next
    case False
    then have lt: "- 1074 < e" "ed \<le> e - 1" using d(3) by simp_all
    then have low: "2 ^ 52 * s \<le> \<bar>q\<bar>" using f(4) by (simp add: s_def)
    have "(2::rat) powi ed \<le> 2 powi (e - 1)"
      using lt(2) by (intro power_int_increasing) simp_all
    also have "\<dots> = s / 2" by (simp add: s_def power_int_diff)
    finally have sd: "(2::rat) powi ed \<le> s / 2" .
    have "\<bar>(of_int md :: rat)\<bar> \<le> 2 ^ 53"
      using abs_of_int_le[OF d(2)] by simp
    then have "\<bar>d\<bar> \<le> 2 ^ 53 * (s / 2)"
      unfolding d(1) abs_mult using sd by (intro mult_mono) simp_all
    then have dle: "\<bar>d\<bar> \<le> 2 ^ 52 * s" by simp
    show ?thesis
    proof (cases "0 \<le> q")
      case True
      have "\<bar>of_int m * s - q\<bar> \<le> \<bar>of_int (2 ^ 52) * s - q\<bar>" by (rule near)
      then show ?thesis using True low dle by simp
    next
      case False
      have "\<bar>of_int m * s - q\<bar> \<le> \<bar>of_int (- (2 ^ 52)) * s - q\<bar>" by (rule near)
      then show ?thesis using False low dle by simp
    qed
  qed
  then show ?thesis using f(1) by (simp add: s_def)
qed

lemma isDouble_iff:
  "isDouble q \<longleftrightarrow>
     (\<exists>m e. q = of_int m * 2 powi e \<and> \<bar>m\<bar> \<le> 2 ^ 53 \<and> - 1074 \<le> e \<and> \<bar>q\<bar> \<le> 2 ^ 1024 - 2 ^ 971)"
proof
  assume a: "isDouble q"
  have "\<bar>q\<bar> < 2 ^ 1024 - 2 ^ 970"
    using a unfolding isDouble_def roundToDouble_def by (auto split: if_splits)
  from round_form[OF this] a show "\<exists>m e. q = of_int m * 2 powi e \<and> \<bar>m\<bar> \<le> 2 ^ 53 \<and> - 1074 \<le> e \<and> \<bar>q\<bar> \<le> 2 ^ 1024 - 2 ^ 971"
    unfolding isDouble_def by (metis number.inject)
next
  assume "\<exists>m e. q = of_int m * 2 powi e \<and> \<bar>m\<bar> \<le> 2 ^ 53 \<and> - 1074 \<le> e \<and> \<bar>q\<bar> \<le> 2 ^ 1024 - 2 ^ 971"
  then obtain m e where d: "q = of_int m * 2 powi e" "\<bar>m\<bar> \<le> 2 ^ 53" "- 1074 \<le> e"
    and b: "\<bar>q\<bar> \<le> 2 ^ 1024 - 2 ^ 971" by blast
  have "\<bar>q\<bar> < 2 ^ 1024 - 2 ^ 970" using b by simp
  from round_nearest[OF this d] show "isDouble q" by (auto simp: isDouble_def)
qed

lemma roundToDouble_isDouble:
  assumes "roundToDouble q = Finite r"
  shows "isDouble r"
proof -
  have "\<bar>q\<bar> < 2 ^ 1024 - 2 ^ 970"
    using assms unfolding roundToDouble_def by (auto split: if_splits)
  from round_form[OF this] assms show ?thesis
    unfolding isDouble_iff by (metis number.inject)
qed

lemma isDouble_of_int:
  assumes "\<bar>k\<bar> \<le> 2 ^ 53"
  shows "isDouble (of_int k)"
proof -
  have "\<bar>(of_int k :: rat)\<bar> \<le> 2 ^ 53"
    using abs_of_int_le[OF assms] by simp
  then have "\<bar>(of_int k :: rat)\<bar> \<le> 2 ^ 1024 - 2 ^ 971" by simp
  then show ?thesis
    unfolding isDouble_iff using assms by (intro exI[of _ k] exI[of _ 0]) simp
qed


text \<open>Evaluation of the rounding on numerals.\<close>

lemma spacingBelow_numeral [simp]:
  "spacingBelow (numeral k) a s = (if a < 2 ^ 52 * s then spacingBelow (pred_numeral k) a (s / 2) else s)"
  by (simp add: numeral_eq_Suc)

lemma spacingAbove_numeral [simp]:
  "spacingAbove (numeral k) a s = (if 2 ^ 53 * s \<le> a then spacingAbove (pred_numeral k) a (2 * s) else s)"
  by (simp add: numeral_eq_Suc)

lemma floor_rat_numeral [simp]:
  "\<lfloor>numeral a / numeral b :: rat\<rfloor> = numeral a div numeral b"
  by (metis floor_divide_of_int_eq of_int_numeral)

lemma isDouble_0 [simp]: "isDouble 0"
  using isDouble_of_int[of 0] by simp

lemma isDouble_numeral [simp]: "numeral k \<le> (2 ^ 53 :: int) \<Longrightarrow> isDouble (numeral k)"
  using isDouble_of_int[of "numeral k"] by simp

lemma isDouble_neg_numeral [simp]: "numeral k \<le> (2 ^ 53 :: int) \<Longrightarrow> isDouble (- numeral k)"
  using isDouble_of_int[of "- numeral k"] by simp

lemma roundToDouble_exact: "isDouble q \<Longrightarrow> roundToDouble q = Finite q"
  by (simp add: isDouble_def)

lemma plus_Finite: "isDouble (a + b) \<Longrightarrow> Finite a + Finite b = Finite (a + b)"
  by (simp add: isDouble_def)

lemma minus_Finite: "isDouble (a - b) \<Longrightarrow> Finite a - Finite b = Finite (a - b)"
  by (simp add: isDouble_def)

lemma number_le_refl: "x \<noteq> NaN \<Longrightarrow> x \<le> (x :: number)"
  by (cases x) simp_all

lemma zero_le_number_iff:
  "0 \<le> x \<longleftrightarrow> (x = PosInf \<or> (\<exists>q. x = Finite q \<and> 0 \<le> q))"
  by (cases x) (simp_all add: zero_number_def)

lemma le_zero_number_iff:
  "x \<le> 0 \<longleftrightarrow> (x = NegInf \<or> (\<exists>q. x = Finite q \<and> q \<le> 0))"
  by (cases x) (simp_all add: zero_number_def)

lemma roundToDouble_nonneg:
  assumes "0 \<le> q"
  shows "0 \<le> roundToDouble q"
proof (cases "2 ^ 1024 - 2 ^ 970 \<le> \<bar>q\<bar>")
  case True
  then have "0 < q" using assms by simp
  then show ?thesis using True by (simp add: roundToDouble_def zero_number_def)
next
  case False
  then have "\<bar>q\<bar> < 2 ^ 1024 - 2 ^ 970" by simp
  from round_nearest[OF this, of 0 0 0] obtain r where
    r: "roundToDouble q = Finite r" "\<bar>r - q\<bar> \<le> \<bar>0 - q\<bar>" by auto
  then have "0 \<le> r" using assms by linarith
  then show ?thesis using r(1) by (simp add: zero_number_def)
qed

lemma roundToDouble_ge:
  assumes "isDouble q" and "0 \<le> x"
  shows "Finite q \<le> roundToDouble (q + x)"
proof -
  from assms(1) obtain m e where d: "q = of_int m * 2 powi e" "\<bar>m\<bar> \<le> 2 ^ 53" "- 1074 \<le> e"
    and b: "\<bar>q\<bar> \<le> 2 ^ 1024 - 2 ^ 971" unfolding isDouble_iff by blast
  show ?thesis
  proof (cases "2 ^ 1024 - 2 ^ 970 \<le> \<bar>q + x\<bar>")
    case True
    have "0 < q + x" using True b assms(2) by (simp add: abs_if split: if_splits)
    then show ?thesis using True by (simp add: roundToDouble_def)
  next
    case False
    then have "\<bar>q + x\<bar> < 2 ^ 1024 - 2 ^ 970" by simp
    from round_nearest[OF this d] obtain r where
      r: "roundToDouble (q + x) = Finite r" "\<bar>r - (q + x)\<bar> \<le> \<bar>q - (q + x)\<bar>" by auto
    then have "q \<le> r" using assms(2) by linarith
    then show ?thesis using r(1) by simp
  qed
qed

lemma roundToDouble_isNumber: "isNumber (roundToDouble q)"
proof (cases "roundToDouble q")
  case (Finite r)
  then show ?thesis using roundToDouble_isDouble[of q r] by simp
qed simp_all


section \<open>Properties of the aggregate on numbers\<close>

lemmas aggregate'_defs =
  deposit'_def withdraw'_def close'_def create'_def Let_def push'_def apply_event'_def newEvent'_def
  new_BankAccount'_def has_def add_def zero_number_def

lemma roundToDouble_numeral [simp]:
  "numeral k \<le> (2 ^ 53 :: int) \<Longrightarrow> roundToDouble (numeral k) = Finite (numeral k)"
  using isDouble_numeral[of k] by (simp add: isDouble_def)

lemma roundToDouble_0 [simp]: "roundToDouble 0 = Finite 0"
  using isDouble_0 by (simp add: isDouble_def)

lemma deposit'_cases:
  assumes "deposit' amount d tx u t a = (None, a1)"
  shows "\<not> amount \<le> 0 \<and> status' (state' a) = OPEN
         \<and> (a1 = a \<or> (balance' (state' a1) = balance' (state' a) + amount
                        \<and> status' (state' a1) = OPEN))"
  using assms
  by (cases "status' (state' a)")
     (auto simp: deposit'_def Let_def push'_def apply_event'_def newEvent'_def split: if_splits)

lemma withdraw'_cases:
  assumes "withdraw' amount d tx u t a = (None, a1)"
  shows "\<not> amount \<le> 0 \<and> \<not> balance' (state' a) < amount \<and> status' (state' a) = OPEN
         \<and> (a1 = a \<or> (balance' (state' a1) = balance' (state' a) - amount
                        \<and> status' (state' a1) = OPEN))"
  using assms
  by (cases "status' (state' a)")
     (auto simp: withdraw'_def Let_def push'_def apply_event'_def newEvent'_def split: if_splits)

lemma close'_cases:
  assumes "close' r u t a = (None, a1)"
  shows "balance' (state' a1) = balance' (state' a)"
  using assms
  by (auto simp: close'_def Let_def push'_def apply_event'_def newEvent'_def split: if_splits)

lemma plus_keeps:
  assumes "0 \<le> b" and "isNumber b" and "\<not> Finite x \<le> 0"
  shows "0 \<le> b + Finite x \<and> isNumber (b + Finite x) \<and> b \<le> b + Finite x"
proof (cases b)
  case (Finite q)
  have q: "0 \<le> q" "isDouble q" and x: "0 \<le> x"
    using assms Finite by (simp_all add: zero_number_def)
  show ?thesis
    using roundToDouble_nonneg[of "q + x"] roundToDouble_isNumber[of "q + x"]
      roundToDouble_ge[OF q(2) x] q x
    by (simp add: Finite)
qed (use assms in \<open>simp_all add: zero_number_def\<close>)

lemma minus_keeps:
  assumes "0 \<le> b" and "\<not> Finite x \<le> 0" and "\<not> b < Finite x"
  shows "0 \<le> b - Finite x \<and> isNumber (b - Finite x)"
proof (cases b)
  case (Finite q)
  have "0 \<le> q - x" using assms Finite by simp
  then show ?thesis
    using roundToDouble_nonneg[of "q - x"] roundToDouble_isNumber[of "q - x"]
    by (simp add: Finite)
qed (use assms in \<open>simp_all add: zero_number_def\<close>)

lemma handle'_keeps:
  assumes "handle' c a = (None, a1)" and "isFinite (amountOf c)"
    and "0 \<le> balance' (state' a)" and "isNumber (balance' (state' a))"
  shows "0 \<le> balance' (state' a1) \<and> isNumber (balance' (state' a1))"
proof (cases c)
  case (Deposit' amount d tx u t)
  then obtain x where x: "amount = Finite x" using assms(2) by (cases amount) simp_all
  from assms(1) Deposit' have "deposit' amount d tx u t a = (None, a1)" by simp
  from deposit'_cases[OF this] plus_keeps[OF assms(3,4), of x] assms(3,4)
  show ?thesis unfolding x by auto
next
  case (Withdraw' amount d tx u t)
  then obtain x where x: "amount = Finite x" using assms(2) by (cases amount) simp_all
  from assms(1) Withdraw' have "withdraw' amount d tx u t a = (None, a1)" by simp
  from withdraw'_cases[OF this] minus_keeps[OF assms(3), of x] assms(3,4)
  show ?thesis unfolding x by auto
next
  case (Close' r u t)
  with assms(1) have "close' r u t a = (None, a1)" by simp
  from close'_cases[OF this] assms(3,4) show ?thesis by simp
qed

lemma accepted'_keeps:
  "accepted' cs a = Some a' \<Longrightarrow> finiteAmounts cs \<Longrightarrow>
   0 \<le> balance' (state' a) \<Longrightarrow> isNumber (balance' (state' a)) \<Longrightarrow>
   0 \<le> balance' (state' a') \<and> isNumber (balance' (state' a'))"
proof (induction cs arbitrary: a)
  case Nil then show ?case by simp
next
  case (Cons c cs)
  obtain r a1 where h: "handle' c a = (r, a1)" by (cases "handle' c a")
  with Cons.prems(1) have r: "r = None" and acc: "accepted' cs a1 = Some a'"
    by (auto split: option.splits)
  have fin: "isFinite (amountOf c)" "finiteAmounts cs"
    using Cons.prems(2) by (auto simp: finiteAmounts_def split: if_splits)
  from handle'_keeps[OF h[unfolded r] fin(1) Cons.prems(3,4)]
  have "0 \<le> balance' (state' a1)" "isNumber (balance' (state' a1))" by simp_all
  from Cons.IH[OF acc fin(2) this] show ?case .
qed

lemma create'_balance: "balance' (state' (create' aid owner b0 cur u t)) = b0"
  by (simp add: create'_def Let_def push'_def apply_event'_def newEvent'_def new_BankAccount'_def)

lemma withdraw'_rejected:
  "balance' (state' a) < amount \<Longrightarrow>
   fst (withdraw' amount d tx u t a) \<noteq> None \<and> snd (withdraw' amount d tx u t a) = a"
  by (simp add: withdraw'_def)

lemma number_less_trans_zero:
  "0 \<le> b \<Longrightarrow> b < amount \<Longrightarrow> \<not> amount \<le> (0 :: number)"
  by (cases b; cases amount) (simp_all add: zero_number_def)

lemma withdraw'_insufficient:
  "status' (state' a) = OPEN \<Longrightarrow> 0 \<le> balance' (state' a) \<Longrightarrow> balance' (state' a) < amount \<Longrightarrow>
   withdraw' amount d tx u t a = (Some InsufficientFunds, a)"
  using number_less_trans_zero[of "balance' (state' a)" amount] by (simp add: withdraw'_def)

lemma handle'_not_withdraw_mono:
  assumes "handle' c a = (None, a1)" and "isFinite (amountOf c)"
    and "\<forall>amount d tx u t. c \<noteq> Withdraw' amount d tx u t"
    and "0 \<le> balance' (state' a)" and "isNumber (balance' (state' a))"
  shows "balance' (state' a) \<le> balance' (state' a1)"
proof -
  have nn: "balance' (state' a) \<noteq> NaN" using assms(4) by (auto simp: zero_number_def)
  show ?thesis
  proof (cases c)
    case (Deposit' amount d tx u t)
    then obtain x where x: "amount = Finite x" using assms(2) by (cases amount) simp_all
    from assms(1) Deposit' have "deposit' amount d tx u t a = (None, a1)" by simp
    from deposit'_cases[OF this] plus_keeps[OF assms(4,5), of x] number_le_refl[OF nn]
    show ?thesis unfolding x by auto
  next
    case (Withdraw' amount d tx u t)
    then show ?thesis using assms(3) by simp
  next
    case (Close' r u t)
    with assms(1) have "close' r u t a = (None, a1)" by simp
    from close'_cases[OF this] number_le_refl[OF nn] show ?thesis by simp
  qed
qed

subsection \<open>C10: the balance is never negative\<close>

text \<open>
  Claim C10: for every aggregate state reachable by accepted commands starting from a
  create with initial balance \<open>\<ge> 0\<close>, the balance is \<open>\<ge> 0\<close> after every operation; a
  withdrawal whose amount exceeds the current balance is rejected with InsufficientFunds,
  and no other accepted operation decreases the balance.

  The balance is a JavaScript number. As amended, the claim is for commands whose amounts
  are finite numbers: the balance is then \<open>\<ge> 0\<close> (it may reach \<open>Infinity\<close>); a
  withdrawal whose amount exceeds the balance is always rejected and leaves the aggregate
  unchanged, with InsufficientFunds when the account is OPEN (on a CLOSED account the
  status is tested first); and an accepted deposit or close does not decrease the balance.
\<close>

theorem balance_never_negative:
  assumes "0 \<le> b0" and "isNumber b0" and "finiteAmounts cs"
    and "accepted' cs (create' aid owner b0 cur u0 t0) = Some a"
  shows "0 \<le> balance' (state' a)
    \<and> (balance' (state' a) < amount \<longrightarrow>
          fst (withdraw' amount d tx u t a) \<noteq> None \<and> snd (withdraw' amount d tx u t a) = a)
    \<and> (status' (state' a) = OPEN \<and> balance' (state' a) < amount \<longrightarrow>
          withdraw' amount d tx u t a = (Some InsufficientFunds, a))
    \<and> (handle' c a = (None, a') \<and> isFinite (amountOf c)
          \<and> (\<forall>amount d tx u t. c \<noteq> Withdraw' amount d tx u t) \<longrightarrow>
          balance' (state' a) \<le> balance' (state' a'))"
proof -
  have inv: "0 \<le> balance' (state' a)" "isNumber (balance' (state' a))"
    using accepted'_keeps[OF assms(4,3)] assms(1,2) by (simp_all add: create'_balance)
  show ?thesis
    using inv withdraw'_rejected[of a amount d tx u t] withdraw'_insufficient[of a amount d tx u t]
      handle'_not_withdraw_mono[of c a a']
    by blast
qed

theorem balance_never_negative_witness:
  "0 \<le> Finite 0 \<and> isNumber (Finite 0)
   \<and> finiteAmounts [Deposit' (Finite 10) None ''t1'' ''u2'' 20]
   \<and> accepted' [Deposit' (Finite 10) None ''t1'' ''u2'' 20]
        (create' ''acc'' ''Ann'' (Finite 0) ''EUR'' ''u1'' 10) = Some openAccount'
   \<and> balance' (state' openAccount') = Finite 10
   \<and> 0 \<le> balance' (state' openAccount')
   \<and> status' (state' openAccount') = OPEN
   \<and> balance' (state' openAccount') < Finite 11
   \<and> withdraw' (Finite 11) None ''t2'' ''u3'' 30 openAccount' = (Some InsufficientFunds, openAccount')
   \<and> handle' (Deposit' (Finite 5) None ''t3'' ''u4'' 40) openAccount'
       = (None, snd (deposit' (Finite 5) None ''t3'' ''u4'' 40 openAccount'))
   \<and> balance' (state' (snd (deposit' (Finite 5) None ''t3'' ''u4'' 40 openAccount'))) = Finite 15
   \<and> balance' (state' openAccount')
       \<le> balance' (state' (snd (deposit' (Finite 5) None ''t3'' ''u4'' 40 openAccount')))"
  using balance_never_negative[of "Finite 0" "[Deposit' (Finite 10) None ''t1'' ''u2'' 20]"
      "''acc''" "''Ann''" "''EUR''" "''u1''" 10 openAccount' "Finite 11" None "''t2''" "''u3''" 30
      "Deposit' (Finite 5) None ''t3'' ''u4'' 40"
      "snd (deposit' (Finite 5) None ''t3'' ''u4'' 40 openAccount')"]
  by (simp add: openAccount'_def finiteAmounts_def aggregate'_defs)

text \<open>
  The claim as stated fails on a closed account: after create with balance 0 and close,
  a withdrawal of 5 exceeds the balance 0 and is rejected with \<open>Account is closed\<close>, not
  with InsufficientFunds. It also fails for amounts that are not finite numbers, which the
  test \<open>amount <= 0\<close> lets through: a deposit of \<open>NaN\<close> is accepted and leaves the balance
  \<open>NaN\<close>, which is not \<open>\<ge> 0\<close> and which no later withdrawal exceeds; a deposit and a
  withdrawal of \<open>Infinity\<close> are accepted and leave the balance \<open>NaN\<close> as well.
\<close>

theorem balance_never_negative_counterexample:
  "accepted' [Close' None ''u2'' 20] (create' ''acc'' ''Ann'' (Finite 0) ''EUR'' ''u1'' 10)
     = Some emptiedAccount'
   \<and> balance' (state' emptiedAccount') = Finite 0
   \<and> balance' (state' emptiedAccount') < Finite 5
   \<and> withdraw' (Finite 5) None ''t1'' ''u3'' 30 emptiedAccount' = (Some AccountClosedError, emptiedAccount')
   \<and> withdraw' (Finite 5) None ''t1'' ''u3'' 30 emptiedAccount' \<noteq> (Some InsufficientFunds, emptiedAccount')
   \<and> accepted' [Deposit' NaN None ''t1'' ''u2'' 20] (create' ''acc'' ''Ann'' (Finite 0) ''EUR'' ''u1'' 10)
     = Some nanAccount
   \<and> balance' (state' nanAccount) = NaN
   \<and> \<not> 0 \<le> balance' (state' nanAccount)
   \<and> fst (withdraw' (Finite 1000000) None ''t2'' ''u3'' 30 nanAccount) = None
   \<and> accepted' [Deposit' PosInf None ''t1'' ''u2'' 20, Withdraw' PosInf None ''t2'' ''u3'' 30]
        (create' ''acc'' ''Ann'' (Finite 0) ''EUR'' ''u1'' 10) = Some infAccount
   \<and> balance' (state' infAccount) = NaN"
  by (simp add: emptiedAccount'_def nanAccount_def infAccount_def aggregate'_defs)

section \<open>Properties of the event store on the typed table\<close>

lemma uuidBytes_numeral [simp]:
  "uuidBytes (numeral k) (a # b # src) =
     (if isxdigit a \<and> isxdigit b
      then (case uuidBytes (pred_numeral k)
                   (if pred_numeral k \<noteq> 0 \<and> even (pred_numeral k) \<and> take 1 src = ''-''
                    then drop 1 src else src) of
              None \<Rightarrow> None
            | Some (digits, rest) \<Rightarrow> Some (tolower a # tolower b # digits, rest))
      else None)"
  by (simp add: numeral_eq_Suc)

lemma sqlText_Some: "sqlText s = Some t \<Longrightarrow> t = s"
  by (simp add: sqlText_def split: if_splits)

lemma sqlInteger_Some: "sqlInteger n = Some m \<Longrightarrow> m = n"
  by (simp add: sqlInteger_def split: if_splits)

lemma save'_unchanged: "fst (save' event rows) \<noteq> None \<Longrightarrow> snd (save' event rows) = rows"
  by (auto simp: save'_def Let_def split: option.splits if_splits prod.splits)

lemma eventsRow_Some:
  assumes "eventsRow event = Some row"
  shows "sqlText (aggregateId event) = Some (aggregateId event)"
    and "sqlInteger (eventNumber event) = Some (eventNumber event)"
    and "eventNumber row = eventNumber event"
  using assms
  by (auto simp: eventsRow_def sqlText_def varchar_def sqlInteger_def split: option.splits if_splits)

lemma save'_conflict:
  assumes "tableRows rows"
  shows "(\<exists>n aid. fst (save' event rows) = Some (ConcurrencyConflict' n aid)) \<longleftrightarrow> pairStored event rows"
proof
  assume "\<exists>n aid. fst (save' event rows) = Some (ConcurrencyConflict' n aid)"
  then show "pairStored event rows"
    by (auto simp: save'_def Let_def pairStored_def filter_empty_conv
             dest!: sqlText_Some sqlInteger_Some split: option.splits if_splits prod.splits)
next
  assume "pairStored event rows"
  then obtain row where row: "row \<in> set rows" "aggregateId row = aggregateId event"
    "eventNumber row = eventNumber event" by (auto simp: pairStored_def)
  have "eventsRow row = Some row"
    using assms row(1) by (auto simp: tableRows_def filter_empty_conv)
  from eventsRow_Some(1,2)[OF this] row
  have b: "sqlText (aggregateId event) = Some (aggregateId event)"
    "sqlInteger (eventNumber event) = Some (eventNumber event)" by simp_all
  have "filter (\<lambda>r. aggregateId r = aggregateId event \<and> eventNumber r = eventNumber event) rows \<noteq> []"
    using row by (auto simp: filter_empty_conv)
  then show "\<exists>n aid. fst (save' event rows) = Some (ConcurrencyConflict' n aid)"
    by (simp add: save'_def b Let_def)
qed

lemma save'_no_conflict:
  assumes "\<not> pairStored event rows"
  shows "save' event rows =
     (case eventsRow event of
        None \<Rightarrow> (Some (DatabaseError InvalidValue), rows)
      | Some row \<Rightarrow>
          if idStored row rows \<or> pairStored row rows then (Some (DatabaseError DuplicateKey), rows)
          else (None, rows @ [row]))"
proof (cases "eventsRow event")
  case None
  then show ?thesis
    using assms
    by (auto simp: save'_def Let_def pairStored_def filter_empty_conv
             dest!: sqlText_Some sqlInteger_Some split: option.splits prod.splits)
next
  case (Some row)
  have n: "filter (\<lambda>r. aggregateId r = aggregateId event \<and> eventNumber r = eventNumber event) rows = []"
    using assms by (auto simp: pairStored_def filter_empty_conv)
  have k: "(filter (\<lambda>r. eventId r = eventId row
                 \<or> (aggregateId r = aggregateId row \<and> eventNumber r = eventNumber row)) rows \<noteq> [])
           = (idStored row rows \<or> pairStored row rows)"
    by (auto simp: idStored_def pairStored_def filter_empty_conv)
  show ?thesis
    using eventsRow_Some(1,2)[OF Some] by (simp add: save'_def Let_def Some n k)
qed

subsection \<open>C5: appending to the event log\<close>

text \<open>
  Claim C5: \<open>EventStore.save\<close> fails with a ConcurrencyConflict error if and only if an
  event already exists for the same (aggregateId, eventNumber) pair; otherwise it
  persists the event; on failure the event log is left unchanged.

  The conflict is as claimed, and so is the rollback. But the INSERT that follows the
  check is refused by the database when a value of the event does not fit the type of its
  column, or when the row repeats a stored key. As amended: \<open>save\<close> fails with a
  ConcurrencyConflict error if and only if an event already exists for the same pair;
  otherwise it persists the event, as the row that the column types make of it, unless
  the database refuses the INSERT, and then it fails with the error of the database; on
  every failure the event log is left unchanged. An event whose values are stored as they
  are, and whose identifier is not stored yet, is persisted as it is.
\<close>

theorem save_conflict_iff:
  assumes "tableRows rows"
  shows "((\<exists>n aid. fst (save' event rows) = Some (ConcurrencyConflict' n aid)) \<longleftrightarrow> pairStored event rows)
    \<and> (\<not> pairStored event rows \<longrightarrow>
          save' event rows =
            (case eventsRow event of
               None \<Rightarrow> (Some (DatabaseError InvalidValue), rows)
             | Some row \<Rightarrow>
                 if idStored row rows \<or> pairStored row rows then (Some (DatabaseError DuplicateKey), rows)
                 else (None, rows @ [row])))
    \<and> (\<not> pairStored event rows \<and> eventsRow event = Some event \<and> \<not> idStored event rows \<longrightarrow>
          save' event rows = (None, rows @ [event]))
    \<and> (fst (save' event rows) \<noteq> None \<longrightarrow> snd (save' event rows) = rows)"
  using save'_conflict[OF assms, of event] save'_no_conflict[of event rows] save'_unchanged[of event rows]
  by auto

lemmas column_defs =
  eventsRow_def sqlUuid_def uuid_out_def isxdigit_def tolower_def varchar_def sqlText_def
  sqlInteger_def jsonb_def newEvent_def Let_def

theorem save_conflict_iff_witness:
  "tableRows [storedRow]
   \<and> pairStored clashingRow [storedRow]
   \<and> save' clashingRow [storedRow] = (Some (ConcurrencyConflict' 1 ''acc''), [storedRow])
   \<and> \<not> pairStored nextRow [storedRow]
   \<and> eventsRow nextRow = Some nextRow
   \<and> \<not> idStored nextRow [storedRow]
   \<and> save' nextRow [storedRow] = (None, [storedRow, nextRow])"
  using save_conflict_iff[of "[storedRow]" clashingRow] save_conflict_iff[of "[storedRow]" nextRow]
  by (simp add: tableRows_def storedRow_def nextRow_def clashingRow_def pairStored_def idStored_def
        save'_def column_defs)

text \<open>
  The claim as stated fails for an event that the table does not take: the creation event
  of an account whose identifier has 256 characters (the create route takes the identifier
  from the request) finds no event with its pair in the empty log, and is not persisted.
\<close>

theorem save_conflict_iff_counterexample:
  "\<not> pairStored longIdEvent []
   \<and> length (aggregateId longIdEvent) = 256
   \<and> save' longIdEvent [] = (Some (DatabaseError InvalidValue), [])
   \<and> snd (save' longIdEvent []) \<noteq> [] @ [longIdEvent]"
  by (simp add: longIdEvent_def pairStored_def save'_def column_defs)

section \<open>Properties of the projector on the typed tables\<close>



lemma roundHalfAway_of_int [simp]: "roundHalfAway (of_int n) = n"
proof -
  have "\<lfloor>(of_int n :: rat) + 1 / 2\<rfloor> = n" "\<lfloor>- (of_int n :: rat) + 1 / 2\<rfloor> = - n"
    by (simp_all add: floor_eq_iff)
  then show ?thesis by (simp add: roundHalfAway_def)
qed

lemma decimal19_4_whole:
  "decimal19_4 (Numeric (of_int k)) = (if 10 ^ 15 \<le> \<bar>k\<bar> then None else Some (Numeric (of_int k)))"
proof -
  have r: "roundHalfAway ((of_int k :: rat) * 10000) = k * 10000"
    using roundHalfAway_of_int[of "k * 10000"] by simp
  have "(10 ^ 15 \<le> \<bar>(of_int k :: rat)\<bar>) = (10 ^ 15 \<le> \<bar>k\<bar>)"
    by (metis of_int_abs of_int_le_iff of_int_numeral of_int_power)
  then show ?thesis by (simp add: decimal19_4_def r Let_def)
qed



lemma sqlText_same: "sqlText s = Some t \<Longrightarrow> t = s"
  by (simp add: sqlText_def split: if_splits)



lemma projectEach_append:
  "projectEach dt (xs @ ys) db = Some db' \<longleftrightarrow>
     (\<exists>db1. projectEach dt xs db = Some db1 \<and> projectEach dt ys db1 = Some db')"
  by (induction xs arbitrary: db) (auto split: option.splits)















lemma decimal19_4_numeral [simp]:
  "decimal19_4 (Numeric (numeral k)) =
     (if 10 ^ 15 \<le> (numeral k :: int) then None else Some (Numeric (numeral k)))"
  using decimal19_4_whole[of "numeral k"] by simp

lemma decimal19_4_0 [simp]: "decimal19_4 (Numeric 0) = Some (Numeric 0)"
  using decimal19_4_whole[of 0] by simp


subsection \<open>C1: the final balance\<close>




end
